theory Spec2Isabelle
  imports Complex_Main
begin

section \<open>Numbers, dates and the lodash range\<close>

text \<open>
  The data generator (\<^verbatim>\<open>DataGenerator\<close>, imported by \<^verbatim>\<open>main\<close>) computes on JavaScript
  numbers. It is modelled twice. In this first model the numbers are exact reals: the
  rounding of IEEE doubles and the values NaN and Infinity are left out, and a statement
  about \<open>generateHourlyData\<close> is one of exact real arithmetic. A \<^verbatim>\<open>Date\<close> is represented by
  its time value, the number of milliseconds since 1970-01-01T00:00:00Z. The second
  model, in a later section, computes on doubles as the program does.
\<close>

text \<open>
  \<open>RangeError\<close> is what \<^verbatim>\<open>Array(length)\<close> throws for a length above \<open>2 ^ 32 - 1\<close>; it is
  the one exception a call of the generator can end in. \<open>InvalidArgument\<close> is the failure
  the specification names; no path of the source produces it.
\<close>

datatype error = RangeError | InvalidArgument

record TelemetryMessage =
  waterLevel :: real
  date :: real

text \<open>
  \<^verbatim>\<open>range(start, end, step)\<close> of lodash (a dependency of the repository). Its
  \<^verbatim>\<open>baseRange\<close> computes
  \<^verbatim>\<open>length = nativeMax(nativeCeil((end - start) / (step || 1)), 0)\<close>, allocates
  \<^verbatim>\<open>result = Array(length)\<close> and fills it by
  \<^verbatim>\<open>while (length--) { result[++index] = start; start += step; }\<close>.
\<close>

definition rangeLength :: "real \<Rightarrow> real \<Rightarrow> real \<Rightarrow> nat" where
  "rangeLength start endv step =
     nat (max \<lceil>(endv - start) / (if step = 0 then 1 else step)\<rceil> 0)"

definition Array_length_error :: "nat \<Rightarrow> bool" where
  "Array_length_error n = (4294967295 < n)"

fun rangeFill :: "nat \<Rightarrow> real \<Rightarrow> real \<Rightarrow> real list" where
  "rangeFill 0 start step = []"
| "rangeFill (Suc n) start step = start # rangeFill n (start + step) step"

definition baseRange :: "real \<Rightarrow> real \<Rightarrow> real \<Rightarrow> error + real list" where
  "baseRange start endv step =
     (if Array_length_error (rangeLength start endv step) then Inl RangeError
      else Inr (rangeFill (rangeLength start endv step) start step))"

definition lodash_range :: "real \<Rightarrow> real \<Rightarrow> real \<Rightarrow> error + real list" where
  "lodash_range start endv step = baseRange start endv step"

text \<open>
  \<^verbatim>\<open>new Date(2020, 0, 1, 0).getTime()\<close>: the constructor reads its arguments as a local
  time, so the time value is that of 2020-01-01T00:00 UTC minus the offset of the local
  time zone at that moment (ECMAScript's \<^verbatim>\<open>LocalTZA\<close>, in milliseconds, positive east of
  Greenwich). The offset is the one input the generator takes from its environment.
  \<^verbatim>\<open>DayFromYear\<close> is ECMAScript's day number of the first day of a year.
\<close>

definition msPerDay :: int where
  "msPerDay = 86400000"

definition DayFromYear :: "int \<Rightarrow> int" where
  "DayFromYear y =
     365 * (y - 1970) + (y - 1969) div 4 - (y - 1901) div 100 + (y - 1601) div 400"

definition startTime :: "int \<Rightarrow> real" where
  "startTime localTZA = real_of_int (DayFromYear 2020 * msPerDay - localTZA)"

section \<open>The signal\<close>

text \<open>
  \<^verbatim>\<open>makeCycle(x, amplitude = 1, period = 1, trend = 0, yShift = 0)\<close>: an omitted argument is
  \<open>None\<close> and takes its default. For \<open>period = 0\<close> JavaScript divides by zero and the result
  is NaN, which the reals do not have: statements about \<open>makeCycle\<close> are read for a
  nonzero period.
\<close>

definition param_default :: "real \<Rightarrow> real option \<Rightarrow> real" where
  "param_default d arg = (case arg of None \<Rightarrow> d | Some v \<Rightarrow> v)"

definition makeCycle ::
  "real \<Rightarrow> real option \<Rightarrow> real option \<Rightarrow> real option \<Rightarrow> real option \<Rightarrow> real" where
  "makeCycle x amplitude period trend yShift =
     param_default 1 amplitude * cos (x * ((2 * pi) / param_default 1 period))
       + param_default 0 trend * x + param_default 0 yShift"

text \<open>
  The three summands of \<^verbatim>\<open>getWaterLevel\<close>, named by the comments the source puts beside
  them. The rainfall and the daily usage calls pass four arguments, so their last
  argument is the trend and \<^verbatim>\<open>yShift\<close> is omitted.
\<close>

definition yearlySeasonalCycle :: "real \<Rightarrow> real" where
  "yearlySeasonalCycle x = makeCycle x (Some (- 30)) (Some 365) (Some 0) (Some 50)"

definition rainfall :: "real \<Rightarrow> real" where
  "rainfall x = makeCycle x (Some (- 0.5)) (Some 10) (Some 0.5) None"

definition dailyUsage :: "real \<Rightarrow> real" where
  "dailyUsage x = makeCycle x (Some (- 0.15)) (Some 1) (Some (- 0.5)) None"

definition getWaterLevel :: "real \<Rightarrow> real" where
  "getWaterLevel x = yearlySeasonalCycle x + rainfall x + dailyUsage x"

text \<open>
  \<^verbatim>\<open>generateHourlyData\<close> maps the range to the messages; when the range throws, so does the
  call.
\<close>

definition generateHourlyData :: "int \<Rightarrow> real \<Rightarrow> error + TelemetryMessage list" where
  "generateHourlyData localTZA durationDays =
     map_sum id
       (map (\<lambda>x. \<lparr>waterLevel = getWaterLevel x,
                   date = x * 24 * 60 * 60 * 1000 + startTime localTZA\<rparr>))
       (lodash_range 0 durationDays (1 / 24))"

section \<open>The generator in double precision\<close>

text \<open>
  The program computes on IEEE 754 doubles, and the \<^verbatim>\<open>Date\<close> constructor clips its argument
  to a whole number of milliseconds. A finite double is \<open>m * 2 ^ e\<close>, kept as the pair of
  the integers \<open>m\<close> and \<open>e\<close>; an operation computes the exact result and rounds it to 53
  significant bits, to nearest and ties to even. Overflow, subnormal numbers, infinities,
  NaN and the sign of zero are outside this model; the numbers of the generator are far
  from all of them.
\<close>

datatype double = Double int int

fun double_value :: "double \<Rightarrow> real" where
  "double_value (Double m e) =
     (if 0 \<le> e then real_of_int m * 2 ^ nat e else real_of_int m / 2 ^ nat (- e))"

function excess_bits :: "int \<Rightarrow> nat" where
  "excess_bits m = (if m < 2 ^ 53 then 0 else Suc (excess_bits (m div 2)))"
  by pat_completeness auto
termination
  by (relation "measure nat") auto

declare excess_bits.simps [simp del]

definition nearest_even :: "int \<Rightarrow> int \<Rightarrow> int \<Rightarrow> int" where
  "nearest_even q r2 p =
     (if r2 < p then q else if p < r2 then q + 1 else if even q then q else q + 1)"

definition shift_round :: "int \<Rightarrow> nat \<Rightarrow> int" where
  "shift_round m sh = nearest_even (m div 2 ^ sh) (2 * (m mod 2 ^ sh)) (2 ^ sh)"

definition round_at :: "int \<Rightarrow> int \<Rightarrow> nat \<Rightarrow> double" where
  "round_at m e sh = Double (shift_round m sh) (e + int sh)"

definition round53 :: "int \<Rightarrow> int \<Rightarrow> double" where
  "round53 m e = round_at m e (excess_bits \<bar>m\<bar>)"

definition align_add :: "int \<Rightarrow> int \<Rightarrow> int \<Rightarrow> int \<Rightarrow> int \<Rightarrow> double" where
  "align_add m1 e1 m2 e2 e = round53 (m1 * 2 ^ nat (e1 - e) + m2 * 2 ^ nat (e2 - e)) e"

fun fadd :: "double \<Rightarrow> double \<Rightarrow> double" where
  "fadd (Double m1 e1) (Double m2 e2) = align_add m1 e1 m2 e2 (min e1 e2)"

fun fsub :: "double \<Rightarrow> double \<Rightarrow> double" where
  "fsub a (Double m2 e2) = fadd a (Double (- m2) e2)"

fun fmul :: "double \<Rightarrow> double \<Rightarrow> double" where
  "fmul (Double m1 e1) (Double m2 e2) = round53 (m1 * m2) (e1 + e2)"

text \<open>
  The quotient keeps at least 55 bits and a sticky last bit for a nonzero remainder, which
  is enough to round it correctly. The divisor is never zero in the generator.
\<close>

definition sticky_quotient :: "int \<Rightarrow> int \<Rightarrow> int" where
  "sticky_quotient n d = 2 * (n div d) + (if n mod d = 0 then 0 else 1)"

fun fdiv :: "double \<Rightarrow> double \<Rightarrow> double" where
  "fdiv (Double m1 e1) (Double m2 e2) =
     round53 (sgn m1 * sgn m2 * sticky_quotient (\<bar>m1\<bar> * 2 ^ 108) \<bar>m2\<bar>) (e1 - e2 - 109)"

fun fceil :: "double \<Rightarrow> int" where
  "fceil (Double m e) = (if 0 \<le> e then m * 2 ^ nat e else - ((- m) div 2 ^ nat (- e)))"

fun ftrunc :: "double \<Rightarrow> int" where
  "ftrunc (Double m e) =
     (if 0 \<le> e then m * 2 ^ nat e else sgn m * (\<bar>m\<bar> div 2 ^ nat (- e)))"

fun is_zero :: "double \<Rightarrow> bool" where
  "is_zero (Double m e) = (m = 0)"

text \<open>The range of lodash on doubles: the same length, allocation and loop as above.\<close>

definition rangeLength_double :: "double \<Rightarrow> double \<Rightarrow> double \<Rightarrow> nat" where
  "rangeLength_double start endv step =
     nat (max (fceil (fdiv (fsub endv start) (if is_zero step then Double 1 0 else step))) 0)"

fun rangeFill_double :: "nat \<Rightarrow> double \<Rightarrow> double \<Rightarrow> double list" where
  "rangeFill_double 0 start step = []"
| "rangeFill_double (Suc n) start step = start # rangeFill_double n (fadd start step) step"

definition baseRange_double :: "double \<Rightarrow> double \<Rightarrow> double \<Rightarrow> error + double list" where
  "baseRange_double start endv step =
     (if Array_length_error (rangeLength_double start endv step) then Inl RangeError
      else Inr (rangeFill_double (rangeLength_double start endv step) start step))"

definition lodash_range_double :: "double \<Rightarrow> double \<Rightarrow> double \<Rightarrow> error + double list" where
  "lodash_range_double start endv step = baseRange_double start endv step"

text \<open>The value of \<^verbatim>\<open>start\<close> after \<open>n\<close> passes of the loop.\<close>

fun after_steps :: "nat \<Rightarrow> double \<Rightarrow> double \<Rightarrow> double" where
  "after_steps 0 start step = start"
| "after_steps (Suc n) start step = after_steps n (fadd start step) step"

text \<open>
  \<^verbatim>\<open>new Date(v)\<close> applies ECMAScript's \<^verbatim>\<open>TimeClip\<close>: beyond 8.64e15 ms in magnitude the
  date is invalid (\<open>None\<close>), otherwise the time value is \<open>v\<close> truncated towards zero.
\<close>

fun beyond_time_range :: "double \<Rightarrow> bool" where
  "beyond_time_range (Double m e) =
     (if 0 \<le> e then 8640000000000000 < \<bar>m\<bar> * 2 ^ nat e
      else 8640000000000000 * 2 ^ nat (- e) < \<bar>m\<bar>)"

definition TimeClip :: "double \<Rightarrow> int option" where
  "TimeClip v = (if beyond_time_range v then None else Some (ftrunc v))"

definition startTime_double :: "int \<Rightarrow> double" where
  "startTime_double localTZA = round53 (DayFromYear 2020 * msPerDay - localTZA) 0"

text \<open>
  The argument \<^verbatim>\<open>x * 24 * 60 * 60 * 1000 + startTime\<close> of the \<^verbatim>\<open>Date\<close> constructor, multiplied
  from the left as JavaScript does, and the time value of the date made from it.
\<close>

definition sampleTime :: "int \<Rightarrow> double \<Rightarrow> double" where
  "sampleTime localTZA x =
     fadd (fmul (fmul (fmul (fmul x (Double 24 0)) (Double 60 0)) (Double 60 0))
             (Double 1000 0))
       (startTime_double localTZA)"

definition sampleDate :: "int \<Rightarrow> double \<Rightarrow> int option" where
  "sampleDate localTZA x = TimeClip (sampleTime localTZA x)"

text \<open>
  ECMAScript fixes \<^verbatim>\<open>Math.cos(0) = 1\<close> and leaves the other values to the implementation,
  as approximations of the cosine. The model takes the cosine rounded to the nearest
  double. \<^verbatim>\<open>Math.PI\<close> is the double nearest to \<open>pi\<close>.
\<close>

definition round_half_even :: "real \<Rightarrow> int" where
  "round_half_even v =
     (if v - real_of_int \<lfloor>v\<rfloor> < 1 / 2 then \<lfloor>v\<rfloor>
      else if 1 / 2 < v - real_of_int \<lfloor>v\<rfloor> then \<lfloor>v\<rfloor> + 1
      else if even \<lfloor>v\<rfloor> then \<lfloor>v\<rfloor> else \<lfloor>v\<rfloor> + 1)"

definition nearest_double :: "real \<Rightarrow> double" where
  "nearest_double v =
     (if v = 0 then Double 0 0
      else Double (round_half_even (v / 2 powr real_of_int (\<lfloor>log 2 \<bar>v\<bar>\<rfloor> - 52)))
             (\<lfloor>log 2 \<bar>v\<bar>\<rfloor> - 52))"

definition Math_cos :: "double \<Rightarrow> double" where
  "Math_cos x = nearest_double (cos (double_value x))"

definition Math_PI :: double where
  "Math_PI = Double 884279719003555 (- 48)"

text \<open>
  \<^verbatim>\<open>makeCycle\<close> and \<^verbatim>\<open>getWaterLevel\<close> on doubles, operation by operation in the order
  JavaScript evaluates them. The literals are the doubles nearest to them: \<open>-0.15\<close> is
  \<open>- 5404319552844595 / 2 ^ 55\<close>, and \<open>0.5\<close> is exact.
\<close>

definition param_default_double :: "double \<Rightarrow> double option \<Rightarrow> double" where
  "param_default_double d arg = (case arg of None \<Rightarrow> d | Some v \<Rightarrow> v)"

definition makeCycle_double ::
  "double \<Rightarrow> double option \<Rightarrow> double option \<Rightarrow> double option \<Rightarrow> double option \<Rightarrow> double"
  where
  "makeCycle_double x amplitude period trend yShift =
     fadd
       (fadd
          (fmul (param_default_double (Double 1 0) amplitude)
             (Math_cos
                (fmul x
                   (fdiv (fmul (Double 2 0) Math_PI)
                      (param_default_double (Double 1 0) period)))))
          (fmul (param_default_double (Double 0 0) trend) x))
       (param_default_double (Double 0 0) yShift)"

definition getWaterLevel_double :: "double \<Rightarrow> double" where
  "getWaterLevel_double x =
     fadd
       (fadd
          (makeCycle_double x (Some (Double (- 30) 0)) (Some (Double 365 0))
             (Some (Double 0 0)) (Some (Double 50 0)))
          (makeCycle_double x (Some (Double (- 1) (- 1))) (Some (Double 10 0))
             (Some (Double 1 (- 1))) None))
       (makeCycle_double x (Some (Double (- 5404319552844595) (- 55))) (Some (Double 1 0))
          (Some (Double (- 1) (- 1))) None)"

record TelemetryMessage_double =
  waterLevel_double :: double
  date_double :: "int option"

definition generateHourlyData_double ::
  "int \<Rightarrow> double \<Rightarrow> error + TelemetryMessage_double list" where
  "generateHourlyData_double localTZA durationDays =
     map_sum id
       (map (\<lambda>x. \<lparr>waterLevel_double = getWaterLevel_double x,
                   date_double = sampleDate localTZA x\<rparr>))
       (lodash_range_double (Double 0 0) durationDays (fdiv (Double 1 0) (Double 24 0)))"

definition generateHourlyData_dates :: "int \<Rightarrow> double \<Rightarrow> error + int option list" where
  "generateHourlyData_dates localTZA durationDays =
     map_sum id (map date_double) (generateHourlyData_double localTZA durationDays)"

section \<open>The promise wrapper of the table service\<close>

text \<open>
  \<^verbatim>\<open>PromiseTableService\<close> wraps the \<^verbatim>\<open>TableService\<close> of the azure-storage SDK. A method of
  the SDK takes its arguments and a callback, performs a request against the storage
  account and calls the callback with \<^verbatim>\<open>(err, result, response)\<close>. Such a call is
  modelled as a function from the state of the storage account to the arguments of the
  callback and the new state. The service record holds the two methods of the SDK that
  table creation and deletion-if-exists go to; what they do stays a parameter.
  TypeScript's types are erased when the program runs, so the results of all methods
  share one type of values.
\<close>

type_synonym ('s, 'e, 'r, 'p) service_call = "'s \<Rightarrow> ('e option \<times> 'r \<times> 'p) \<times> 's"

record ('s, 'o, 'e, 'r, 'p) TableService =
  svc_createTable :: "string \<Rightarrow> 'o option \<Rightarrow> ('s, 'e, 'r, 'p) service_call"
  svc_deleteTableIfExists :: "string \<Rightarrow> 'o option \<Rightarrow> ('s, 'e, 'r, 'p) service_call"

record ('r, 'p) ResultResponse =
  result :: 'r
  response :: 'p

text \<open>
  \<^verbatim>\<open>promiseResult(fn, ...args)\<close> appends the callback
  \<^verbatim>\<open>(err, result, response) => { err ? reject(err) : resolve({ result, response }) }\<close>
  to the arguments and applies \<^verbatim>\<open>fn\<close> to them on the service. The settled promise is a
  sum: \<open>Inl\<close> the rejection, \<open>Inr\<close> the resolved value. The first argument below is \<^verbatim>\<open>fn\<close>
  applied to \<^verbatim>\<open>args\<close>.
\<close>

definition promiseResult ::
  "('s, 'e, 'r, 'p) service_call \<Rightarrow> 's \<Rightarrow> ('e + ('r, 'p) ResultResponse) \<times> 's" where
  "promiseResult fn_args s =
     (case fn_args s of
        ((err, res, resp), s') \<Rightarrow>
          ((case err of
              Some e \<Rightarrow> Inl e
            | None \<Rightarrow> Inr \<lparr>result = res, response = resp\<rparr>), s'))"

definition createTable ::
  "('s, 'o, 'e, 'r, 'p) TableService \<Rightarrow> string \<Rightarrow> 'o option \<Rightarrow> 's
     \<Rightarrow> ('e + ('r, 'p) ResultResponse) \<times> 's" where
  "createTable svc table options = promiseResult (svc_createTable svc table options)"

definition deleteTableIfExists ::
  "('s, 'o, 'e, 'r, 'p) TableService \<Rightarrow> string \<Rightarrow> 'o option \<Rightarrow> 's
     \<Rightarrow> ('e + ('r, 'p) ResultResponse) \<times> 's" where
  "deleteTableIfExists svc table options = promiseResult (svc_createTable svc table options)"

text \<open>
  An in-memory table service to run the wrapper on: the account is the list of its
  table names and a response is its status code. Creating a table that exists reports
  an error; deleting a table if it exists reports whether it did.
\<close>

datatype storage_error = TableAlreadyExists

datatype js_result = TableResult string | Boolean bool

definition memoryService ::
  "(string list, unit, storage_error, js_result, nat) TableService" where
  "memoryService =
     \<lparr>svc_createTable = (\<lambda>table options s.
        if table \<in> set s then ((Some TableAlreadyExists, TableResult table, 409), s)
        else ((None, TableResult table, 204), table # s)),
      svc_deleteTableIfExists = (\<lambda>table options s.
        if table \<in> set s then ((None, Boolean True, 204), removeAll table s)
        else ((None, Boolean False, 404), s))\<rparr>"

section \<open>Properties of the range\<close>

lemma length_rangeFill: "length (rangeFill n start step) = n"
  by (induction n arbitrary: start) simp_all

lemma nth_rangeFill:
  "i < n \<Longrightarrow> rangeFill n start step ! i = start + real i * step"
proof (induction n arbitrary: start i)
  case 0
  then show ?case by simp
next
  case (Suc n)
  show ?case
  proof (cases i)
    case 0
    then show ?thesis by simp
  next
    case (Suc j)
    with Suc.prems have "j < n" by simp
    from Suc.IH [OF this, of "start + step"] Suc show ?thesis
      by (simp add: algebra_simps)
  qed
qed

lemma rangeFill_eq_map:
  "rangeFill n start step = map (\<lambda>i. start + real i * step) [0..<n]"
  by (rule nth_equalityI) (simp_all add: length_rangeFill nth_rangeFill)

lemma nat_max_zero: "nat (max z 0) = nat z"
  by (simp add: max_def)

lemma hourly_range:
  "lodash_range 0 d (1 / 24) =
     (if 4294967295 < nat \<lceil>d * 24\<rceil> then Inl RangeError
      else Inr (map (\<lambda>i. real i / 24) [0..<nat \<lceil>d * 24\<rceil>]))"
  by (simp add: lodash_range_def baseRange_def rangeLength_def rangeFill_eq_map nat_max_zero
      Array_length_error_def)


section \<open>The generated sequence in exact arithmetic\<close>

lemma generateHourlyData_eq:
  "generateHourlyData tza d =
     (if 4294967295 < nat \<lceil>d * 24\<rceil> then Inl RangeError
      else Inr (map (\<lambda>i. \<lparr>waterLevel = getWaterLevel (real i / 24),
                           date = real i * 3600000 + startTime tza\<rparr>)
                  [0..<nat \<lceil>d * 24\<rceil>]))"
  by (simp add: generateHourlyData_def hourly_range comp_def)

lemma generateHourlyData_Inr:
  "generateHourlyData tza d = Inr g \<Longrightarrow>
   g = map (\<lambda>i. \<lparr>waterLevel = getWaterLevel (real i / 24),
                  date = real i * 3600000 + startTime tza\<rparr>) [0..<nat \<lceil>d * 24\<rceil>]"
  by (simp add: generateHourlyData_eq split: if_splits)

lemma getWaterLevel_zero: "getWaterLevel 0 = 19.35"
  by (simp add: getWaterLevel_def yearlySeasonalCycle_def rainfall_def dailyUsage_def
      makeCycle_def param_default_def)

lemma getWaterLevel_closed_form:
  "getWaterLevel x =
     50 - 30 * cos (x * (2 * pi / 365)) - 0.5 * cos (x * (2 * pi / 10))
        - 0.15 * cos (x * (2 * pi / 1))"
  by (simp add: getWaterLevel_def yearlySeasonalCycle_def rainfall_def dailyUsage_def
      makeCycle_def param_default_def)

lemma three_cosines_bounds:
  fixes a b c :: real
  assumes "- 1 \<le> a" "a \<le> 1" "- 1 \<le> b" "b \<le> 1" "- 1 \<le> c" "c \<le> 1"
  shows "19.35 \<le> 50 - 30 * a - 0.5 * b - 0.15 * c"
    and "50 - 30 * a - 0.5 * b - 0.15 * c \<le> 80.65"
  using assms by (auto simp: power2_eq_square)

lemma getWaterLevel_bounds: "19.35 \<le> getWaterLevel x" "getWaterLevel x \<le> 80.65"
  unfolding getWaterLevel_closed_form
  by (rule three_cosines_bounds; simp)+

lemma seven_days:
  "generateHourlyData tza 7 =
     Inr (map (\<lambda>i. \<lparr>waterLevel = getWaterLevel (real i / 24),
                      date = real i * 3600000 + startTime tza\<rparr>) [0..<168])"
  by (simp add: generateHourlyData_eq)

text \<open>
  In exact arithmetic the timestamps of consecutive samples differ by exactly
  3,600,000 ms, and the sequence is strictly ascending by timestamp.
\<close>

lemma hourly_spacing_exact:
  assumes "generateHourlyData tza d = Inr g"
  shows "\<forall>i. Suc i < length g \<longrightarrow> date (g ! Suc i) - date (g ! i) = 3600000"
    and "sorted_wrt (<) (map date g)"
proof -
  note g = generateHourlyData_Inr [OF assms]
  show "\<forall>i. Suc i < length g \<longrightarrow> date (g ! Suc i) - date (g ! i) = 3600000"
    by (simp add: g algebra_simps)
  show "sorted_wrt (<) (map date g)"
    unfolding sorted_wrt_iff_nth_less by (simp add: g)
qed

section \<open>The rounding of the double operations\<close>

text \<open>
  \<open>round53\<close> returns a nearest number of at most 53 significant bits, the even one of two
  nearest, and \<open>fadd\<close> and \<open>fmul\<close> apply it to the exact sum and the exact product.
\<close>

lemma excess_bits_upper: "m < 2 ^ 53 * 2 ^ excess_bits m"
proof (induction m rule: excess_bits.induct)
  case (1 m)
  show ?case
  proof (cases "m < 2 ^ 53")
    case True
    then show ?thesis by (simp add: excess_bits.simps [of m])
  next
    case False
    with 1 have "m div 2 < 2 ^ 53 * 2 ^ excess_bits (m div 2)" by simp
    then have "m < 2 * (2 ^ 53 * 2 ^ excess_bits (m div 2))" by linarith
    with False show ?thesis by (simp add: excess_bits.simps [of m])
  qed
qed

lemma excess_bits_lower: "excess_bits m = Suc k \<Longrightarrow> 2 ^ 53 * 2 ^ k \<le> m"
proof (induction m arbitrary: k rule: excess_bits.induct)
  case (1 m)
  from "1.prems" have big: "\<not> m < 2 ^ 53" and eq: "excess_bits (m div 2) = k"
    by (auto simp: excess_bits.simps [of m] split: if_splits)
  show ?case
  proof (cases k)
    case 0
    with big show ?thesis by simp
  next
    case (Suc j)
    with "1.IH" big eq have "2 ^ 53 * 2 ^ j \<le> m div 2" by simp
    then have "2 * (2 ^ 53 * 2 ^ j) \<le> m" by linarith
    with Suc show ?thesis by simp
  qed
qed

lemma shift_round_nearest: "2 * \<bar>shift_round m sh * 2 ^ sh - m\<bar> \<le> 2 ^ sh"
proof -
  define p :: int where "p = 2 ^ sh"
  define q where "q = m div p"
  define r where "r = m mod p"
  have p: "0 < p" by (simp add: p_def)
  have m: "m = q * p + r" by (simp add: q_def r_def)
  have r: "0 \<le> r" "r < p" using p by (simp_all add: r_def)
  have "2 * \<bar>nearest_even q (2 * r) p * p - m\<bar> \<le> p"
    unfolding nearest_even_def m using r by (simp add: algebra_simps)
  then show ?thesis by (simp add: shift_round_def p_def q_def r_def)
qed

lemma shift_round_tie_even:
  "2 * (m mod 2 ^ sh) = 2 ^ sh \<Longrightarrow> even (shift_round m sh)"
  by (simp add: shift_round_def nearest_even_def)

lemma shift_round_significand:
  assumes "\<bar>m\<bar> < 2 ^ 53 * 2 ^ sh"
  shows "\<bar>shift_round m sh\<bar> \<le> 2 ^ 53"
proof -
  define p :: int where "p = 2 ^ sh"
  define q where "q = shift_round m sh"
  have p: "0 < p" by (simp add: p_def)
  have near: "2 * \<bar>q * p - m\<bar> \<le> p"
    using shift_round_nearest [of m sh] by (simp add: p_def q_def)
  have "\<bar>q * p\<bar> \<le> \<bar>q * p - m\<bar> + \<bar>m\<bar>" by linarith
  with near assms have "2 * \<bar>q * p\<bar> < (2 * 2 ^ 53 + 1) * p"
    by (simp add: p_def algebra_simps)
  then have "(2 * \<bar>q\<bar>) * p < (2 * 2 ^ 53 + 1) * p"
    using p by (simp add: abs_mult)
  with p have "2 * \<bar>q\<bar> < 2 * 2 ^ 53 + 1"
    by (simp only: mult_less_cancel_right_pos)
  then show ?thesis by (simp add: q_def)
qed

lemma shift_round_normal:
  assumes "2 ^ 53 * 2 ^ k \<le> \<bar>m\<bar>"
  shows "2 ^ 52 \<le> \<bar>shift_round m (Suc k)\<bar>"
proof -
  define p :: int where "p = 2 ^ Suc k"
  define q where "q = shift_round m (Suc k)"
  have p: "0 < p" by (simp add: p_def)
  have near: "2 * \<bar>q * p - m\<bar> \<le> p"
    using shift_round_nearest [of m "Suc k"] by (simp add: p_def q_def)
  have "\<bar>m\<bar> \<le> \<bar>q * p - m\<bar> + \<bar>q * p\<bar>" by linarith
  moreover from assms have "2 ^ 52 * p \<le> \<bar>m\<bar>" by (simp add: p_def)
  ultimately have "(2 * 2 ^ 52 - 1) * p \<le> 2 * \<bar>q * p\<bar>"
    using near by (simp add: algebra_simps)
  then have "(2 * 2 ^ 52 - 1) * p \<le> (2 * \<bar>q\<bar>) * p"
    using p by (simp add: abs_mult)
  with p have "2 * 2 ^ 52 - 1 \<le> 2 * \<bar>q\<bar>"
    by (simp only: mult_le_cancel_right_pos)
  then show ?thesis by (simp add: q_def)
qed

lemma round53_nearest:
  "\<exists>m' sh. round53 m e = Double m' (e + int sh)
     \<and> 2 * \<bar>m' * 2 ^ sh - m\<bar> \<le> 2 ^ sh
     \<and> \<bar>m'\<bar> \<le> 2 ^ 53
     \<and> (sh = 0 \<or> 2 ^ 52 \<le> \<bar>m'\<bar>)"
proof -
  define sh where "sh = excess_bits \<bar>m\<bar>"
  have eq: "round53 m e = Double (shift_round m sh) (e + int sh)"
    by (simp add: round53_def round_at_def sh_def)
  have sig: "\<bar>shift_round m sh\<bar> \<le> 2 ^ 53"
    using excess_bits_upper [of "\<bar>m\<bar>"] by (intro shift_round_significand) (simp add: sh_def)
  have norm: "sh = 0 \<or> 2 ^ 52 \<le> \<bar>shift_round m sh\<bar>"
  proof (cases sh)
    case 0
    then show ?thesis by simp
  next
    case (Suc k)
    then have "2 ^ 53 * 2 ^ k \<le> \<bar>m\<bar>"
      using excess_bits_lower [of "\<bar>m\<bar>" k] by (simp add: sh_def)
    then show ?thesis using Suc shift_round_normal [of k m] by simp
  qed
  from eq sig norm shift_round_nearest [of m sh] show ?thesis by blast
qed

lemma double_value_powr: "double_value (Double m e) = real_of_int m * 2 powr real_of_int e"
  by (simp add: powr_int field_simps)






section \<open>The cosine at and near zero\<close>

lemma nearest_double_one: "nearest_double 1 = Double 4503599627370496 (- 52)"
proof -
  have "(2::real) powr real_of_int (- 52) = 1 / 2 ^ 52"
    by (simp only: powr_int) simp
  then have p: "(2::real) powr - 52 = 1 / 4503599627370496"
    by simp
  show ?thesis
    by (simp add: nearest_double_def round_half_even_def p)
qed

lemma Math_cos_zero:
  "double_value x = 0 \<Longrightarrow> Math_cos x = Double 4503599627370496 (- 52)"
  by (simp add: Math_cos_def nearest_double_one)

lemma cos_near_one:
  fixes t :: real
  assumes "0 < t" "t \<le> 1 / 2 ^ 28"
  shows "1 - 1 / 2 ^ 57 \<le> cos t" and "cos t < 1"
proof -
  have "\<bar>sin (t / 2)\<bar> \<le> \<bar>t / 2\<bar>" by (rule abs_sin_x_le_abs_x)
  with assms have s: "\<bar>sin (t / 2)\<bar> \<le> 1 / 2 ^ 29" by simp
  have "(sin (t / 2))\<^sup>2 = \<bar>sin (t / 2)\<bar> * \<bar>sin (t / 2)\<bar>"
    by (simp add: power2_eq_square)
  also have "\<dots> \<le> (1 / 2 ^ 29) * (1 / 2 ^ 29)"
    using s by (intro mult_mono) simp_all
  finally have "(sin (t / 2))\<^sup>2 \<le> 1 / 2 ^ 58" by simp
  moreover have "cos t = 1 - 2 * (sin (t / 2))\<^sup>2"
    using cos_double_sin [of "t / 2"] by simp
  ultimately show "1 - 1 / 2 ^ 57 \<le> cos t" by simp
  have "t \<le> pi" using assms pi_ge_two by simp
  with assms have "cos t < cos 0"
    by (intro cos_monotone_0_pi) simp_all
  then show "cos t < 1" by simp
qed

lemma nearest_double_below_one:
  assumes "1 - 1 / 2 ^ 57 \<le> v" "v < 1"
  shows "nearest_double v = Double 9007199254740992 (- 53)"
proof -
  from assms have pos: "0 < v" by simp
  have e: "\<lfloor>log 2 v\<rfloor> = - 1"
    using assms pos by (subst floor_log_eq_powr_iff) (simp_all add: powr_minus_divide)
  have "(2::real) powr real_of_int (- 53) = 1 / 2 ^ 53"
    by (simp only: powr_int) simp
  then have p: "(2::real) powr - 53 = 1 / 9007199254740992"
    by simp
  define w where "w = v * 2 ^ 53"
  have w: "2 ^ 53 - 1 / 16 \<le> w" "w < 2 ^ 53"
    using assms by (simp_all add: w_def)
  then have fl: "\<lfloor>w\<rfloor> = 2 ^ 53 - 1"
    by (intro floor_unique) simp_all
  have "round_half_even w = 2 ^ 53"
    using w by (simp add: round_half_even_def fl)
  then have "round_half_even (v * 9007199254740992) = 9007199254740992"
    by (simp add: w_def)
  then show ?thesis
    using pos by (simp add: nearest_double_def e p)
qed

lemma Math_cos_tiny:
  "0 < double_value x \<Longrightarrow> double_value x \<le> 1 / 2 ^ 28 \<Longrightarrow>
   Math_cos x = Double 9007199254740992 (- 53)"
  unfolding Math_cos_def
  by (intro nearest_double_below_one cos_near_one)

section \<open>Evaluation in double precision\<close>

lemma excess_bits_numeral:
  "excess_bits (numeral k) =
     (if (numeral k :: int) < 9007199254740992 then 0
      else Suc (excess_bits (numeral k div 2)))"
  "excess_bits 0 = 0"
  "excess_bits 1 = 0"
  by (simp_all add: excess_bits.simps [of "numeral k"] excess_bits.simps [of 0]
      excess_bits.simps [of 1])

lemma after_steps_numeral:
  "after_steps (numeral k) start step = after_steps (pred_numeral k) (fadd start step) step"
  by (simp add: numeral_eq_Suc)

lemmas double_eval =
  excess_bits_numeral after_steps_numeral round53_def round_at_def shift_round_def
  nearest_even_def align_add_def sticky_quotient_def

lemma after_steps_add:
  "after_steps (a + b) start step = after_steps b (after_steps a start step) step"
  by (induction a arbitrary: start) simp_all

lemma after_steps_Suc:
  "after_steps (Suc n) start step = fadd (after_steps n start step) step"
  by (induction n arbitrary: start) simp_all

lemma length_rangeFill_double: "length (rangeFill_double n start step) = n"
  by (induction n arbitrary: start) simp_all

lemma nth_rangeFill_double:
  "i < n \<Longrightarrow> rangeFill_double n start step ! i = after_steps i start step"
proof (induction n arbitrary: start i)
  case 0
  then show ?case by simp
next
  case (Suc n)
  then show ?case by (cases i) simp_all
qed

lemma one_hour_double: "fdiv (Double 1 0) (Double 24 0) = Double 6004799503160661 (- 57)"
  by (simp add: double_eval)

lemma steps_380:
  "after_steps 380 (Double 0 0) (Double 6004799503160661 (- 57)) =
     Double 8913374262504056 (- 49)"
  by (simp add: double_eval)

lemma steps_760:
  "after_steps 380 (Double 8913374262504056 (- 49)) (Double 6004799503160661 (- 57)) =
     Double 8913374262504206 (- 48)"
  by (simp add: double_eval)

lemma steps_1140:
  "after_steps 380 (Double 8913374262504206 (- 48)) (Double 6004799503160661 (- 57)) =
     Double 6685030696878007 (- 47)"
  by (simp add: double_eval)

lemma steps_1518:
  "after_steps 378 (Double 6685030696878007 (- 47)) (Double 6004799503160661 (- 57)) =
     Double 8901646138474297 (- 47)"
  by (simp add: double_eval)

lemma step_value_1518:
  "after_steps 1518 (Double 0 0) (Double 6004799503160661 (- 57)) =
     Double 8901646138474297 (- 47)"
proof -
  have "(1518 :: nat) = 380 + (380 + (380 + 378))" by simp
  then show ?thesis
    by (simp only: after_steps_add steps_380 steps_760 steps_1140 steps_1518)
qed

lemma step_value_1519:
  "after_steps 1519 (Double 0 0) (Double 6004799503160661 (- 57)) =
     Double 8907510200489102 (- 47)"
proof -
  have "(1519 :: nat) = Suc 1518" by simp
  then have "after_steps 1519 (Double 0 0) (Double 6004799503160661 (- 57)) =
      fadd (Double 8901646138474297 (- 47)) (Double 6004799503160661 (- 57))"
    by (simp only: after_steps_Suc step_value_1518)
  also have "\<dots> = Double 8907510200489102 (- 47)"
    by (simp add: double_eval)
  finally show ?thesis .
qed

lemma startTime_double_utc: "startTime_double 0 = Double 1577836800000 0"
  by (simp add: startTime_double_def DayFromYear_def msPerDay_def double_eval)

lemma sampleTime_1518:
  "sampleTime 0 (Double 8901646138474297 (- 47)) = Double 6485203353600000 (- 12)"
  by (simp add: sampleTime_def startTime_double_utc double_eval)

lemma sampleTime_1519:
  "sampleTime 0 (Double 8907510200489102 (- 47)) = Double 6485218099199999 (- 12)"
  by (simp add: sampleTime_def startTime_double_utc double_eval)

lemma sampleDate_1518:
  "sampleDate 0 (Double 8901646138474297 (- 47)) = Some 1583301600000"
  by (simp add: sampleDate_def sampleTime_1518 TimeClip_def)

lemma sampleDate_1519:
  "sampleDate 0 (Double 8907510200489102 (- 47)) = Some 1583305199999"
  by (simp add: sampleDate_def sampleTime_1519 TimeClip_def)

text \<open>
  Landmarks of the evaluation: the step is the double next below 1/24, and dividing 100
  or 7 by it gives 2400 or 168 to within half a unit in the last place; after six
  additions the step value is the double next below 1/4, which JavaScript prints as
  0.24999999999999997; the time passed to the \<^verbatim>\<open>Date\<close> constructor for sample 1519 is
  1/4096 ms short of the full hour.
\<close>

lemma one_hour_double_value:
  "double_value (fdiv (Double 1 0) (Double 24 0)) < 1 / 24"
  "1 / 24 - double_value (fdiv (Double 1 0) (Double 24 0)) < 1 / 2 ^ 58"
  unfolding one_hour_double by simp_all

lemma quotient_landmarks:
  "\<bar>100 / double_value (Double 6004799503160661 (- 57)) - 2400\<bar> < 1 / 2 ^ 42"
  "\<bar>7 / double_value (Double 6004799503160661 (- 57)) - 168\<bar> < 1 / 2 ^ 46"
  by simp_all

lemma step_value_6:
  "after_steps 6 (Double 0 0) (Double 6004799503160661 (- 57)) =
     Double 9007199254740991 (- 55)"
  "double_value (Double 9007199254740991 (- 55)) = 1 / 4 - 1 / 2 ^ 55"
  by (simp_all add: double_eval)

lemma sampleTime_1519_value:
  "double_value (Double 6485218099199999 (- 12)) = 1583305200000 - 1 / 4096"
  by simp

lemma generateHourlyData_dates_eq:
  "generateHourlyData_dates tza d =
     map_sum id (map (sampleDate tza))
       (lodash_range_double (Double 0 0) d (fdiv (Double 1 0) (Double 24 0)))"
  unfolding generateHourlyData_dates_def generateHourlyData_double_def
  by (cases "lodash_range_double (Double 0 0) d (fdiv (Double 1 0) (Double 24 0))")
    (simp_all add: comp_def)

lemma generateHourlyData_levels_eq:
  "map_sum id (map waterLevel_double) (generateHourlyData_double tza d) =
     map_sum id (map getWaterLevel_double)
       (lodash_range_double (Double 0 0) d (fdiv (Double 1 0) (Double 24 0)))"
  unfolding generateHourlyData_double_def
  by (cases "lodash_range_double (Double 0 0) d (fdiv (Double 1 0) (Double 24 0))")
    (simp_all add: comp_def)

lemma generateHourlyData_length_eq:
  "map_sum id length (generateHourlyData_double tza d) =
     map_sum id length
       (lodash_range_double (Double 0 0) d (fdiv (Double 1 0) (Double 24 0)))"
  unfolding generateHourlyData_double_def
  by (cases "lodash_range_double (Double 0 0) d (fdiv (Double 1 0) (Double 24 0))") simp_all

lemma hundred_days_range:
  "lodash_range_double (Double 0 0) (Double 100 0) (Double 6004799503160661 (- 57)) =
     Inr (rangeFill_double 2400 (Double 0 0) (Double 6004799503160661 (- 57)))"
  by (simp add: lodash_range_double_def baseRange_double_def rangeLength_double_def
      Array_length_error_def double_eval)

lemma seven_days_range:
  "lodash_range_double (Double 0 0) (Double 7 0) (Double 6004799503160661 (- 57)) =
     Inr (rangeFill_double 168 (Double 0 0) (Double 6004799503160661 (- 57)))"
  by (simp add: lodash_range_double_def baseRange_double_def rangeLength_double_def
      Array_length_error_def double_eval)

lemma negative_duration_range:
  "lodash_range_double (Double 0 0) (Double (- 1) 0) (Double 6004799503160661 (- 57)) = Inr []"
  by (simp add: lodash_range_double_def baseRange_double_def rangeLength_double_def
      Array_length_error_def double_eval)

lemma huge_duration_range:
  "lodash_range_double (Double 0 0) (Double 200000000 0) (Double 6004799503160661 (- 57)) =
     Inl RangeError"
  by (simp add: lodash_range_double_def baseRange_double_def rangeLength_double_def
      Array_length_error_def double_eval)

lemma five_hours_double:
  "fdiv (Double 5 0) (Double 24 0) = Double 7505999378950827 (- 55)"
  "fmul (Double 7505999378950827 (- 55)) (Double 24 0) = Double 5629499534213120 (- 50)"
  "double_value (Double 5629499534213120 (- 50)) = 5"
  by (simp_all add: double_eval)

lemma five_hours_range:
  "lodash_range_double (Double 0 0) (Double 7505999378950827 (- 55))
       (Double 6004799503160661 (- 57)) =
     Inr (rangeFill_double 6 (Double 0 0) (Double 6004799503160661 (- 57)))"
  by (simp add: lodash_range_double_def baseRange_double_def rangeLength_double_def
      Array_length_error_def double_eval)


lemma first_of_rangeFill_double:
  "0 < n \<Longrightarrow> hd (map f (rangeFill_double n start step)) = f start"
  by (cases n) simp_all

section \<open>Truncation, small integers and the first sample\<close>

lemma round53_small: "\<bar>n\<bar> < 2 ^ 53 \<Longrightarrow> round53 n e = Double n e"
  by (simp add: round53_def round_at_def shift_round_def nearest_even_def
      excess_bits.simps [of "\<bar>n\<bar>"])





section \<open>The water level and the cycle on doubles\<close>

lemma getWaterLevel_double_zero:
  "getWaterLevel_double (Double 0 0) = Double 5446540799351194 (- 48)"
  by (simp add: getWaterLevel_double_def makeCycle_double_def param_default_double_def
      Math_PI_def Math_cos_zero double_eval)

lemma nearest_to_19_35:
  "\<bar>double_value (Double 5446540799351194 (- 48)) - 19.35\<bar> < 1 / 2 ^ 49"
  by simp

lemma full_turn_tiny:
  "fmul (Double 10 0) (fdiv (fmul (Double 2 0) Math_PI) (Double 1 100)) =
     Double 8842797190035550 (- 147)"
  by (simp add: Math_PI_def double_eval)

lemma cycle_with_trend:
  "makeCycle_double (Double 10 0) (Some (Double 1 0)) (Some (Double 1 100))
       (Some (Double 5764607523034235 (- 59))) (Some (Double (- 1) (- 1))) =
     Double 2702159776422298 (- 52)"
  unfolding makeCycle_double_def param_default_double_def option.case full_turn_tiny
  by (simp add: Math_cos_tiny double_eval)

lemma cycle_without_trend:
  "makeCycle_double (Double 10 0) (Some (Double 1 0)) (Some (Double 1 100))
       (Some (Double 0 0)) (Some (Double (- 1) (- 1))) =
     Double 2251799813685248 (- 52)"
  unfolding makeCycle_double_def param_default_double_def option.case full_turn_tiny
  by (simp add: Math_cos_tiny double_eval)

lemma ten_times_trend:
  "fmul (Double 10 0) (Double 5764607523034235 (- 59)) = Double 7205759403792794 (- 56)"
  "fadd (Double 2251799813685248 (- 52)) (Double 7205759403792794 (- 56)) =
     Double 5404319552844595 (- 53)"
  by (simp_all add: double_eval)


section \<open>The number of steps on doubles\<close>

text \<open>
  The length of the range is the ceiling of the rounded quotient of the duration by the
  double next below 1/24, which is \<open>6004799503160661 / 2 ^ 57\<close>, a third of \<open>2 ^ 54 - 1\<close>
  over \<open>2 ^ 57\<close>. For a duration \<open>m * 2 ^ e\<close> the quotient is \<open>24 * m * 2 ^ e\<close> times
  \<open>1 + 1 / (2 ^ 54 - 1)\<close>: the excess is less than half a unit in the last place but large
  enough to carry a product just above an integer over the middle to the next double, so
  the ceiling of the rounded quotient is the ceiling of the exact product
  \<open>24 * m * 2 ^ e\<close>.
\<close>

lemma sticky_quotient_hour:
  assumes "0 < m" "m < 2 ^ 53"
  shows "sticky_quotient (m * 2 ^ 108) 6004799503160661 =
     6 * m * (2 ^ 54 + 1)
     + (if m < 6004799503160661 then 1 else if m = 6004799503160661 then 2 else 3)"
proof (cases "m < 6004799503160661")
  case True
  have key: "m * 2 ^ 108 = 6004799503160661 * (3 * m * (2 ^ 54 + 1)) + m"
    by simp
  from assms True have d: "m * 2 ^ 108 div 6004799503160661 = 3 * m * (2 ^ 54 + 1)"
    by (intro int_div_pos_eq [OF key]) simp_all
  from assms True have r: "m * 2 ^ 108 mod 6004799503160661 = m"
    by (intro int_mod_pos_eq [OF key]) simp_all
  from assms True show ?thesis
    unfolding sticky_quotient_def d r by simp
next
  case False
  have key: "m * 2 ^ 108 =
      6004799503160661 * (3 * m * (2 ^ 54 + 1) + 1) + (m - 6004799503160661)"
    by simp
  from assms False have d: "m * 2 ^ 108 div 6004799503160661 = 3 * m * (2 ^ 54 + 1) + 1"
    by (intro int_div_pos_eq [OF key]) simp_all
  from assms False have r: "m * 2 ^ 108 mod 6004799503160661 = m - 6004799503160661"
    by (intro int_mod_pos_eq [OF key]) simp_all
  from assms False show ?thesis
    unfolding sticky_quotient_def d r by simp
qed


lemma hour_count_core:
  fixes m m' Q A T c :: int and k N :: nat
  assumes m: "0 < m" "m < 2 ^ 53"
    and c: "c = (if m < 6004799503160661 then 1 else if m = 6004799503160661 then 2 else 3)"
    and Q: "Q = 6 * m * (2 ^ 54 + 1) + c"
    and lo: "2 ^ 53 * 2 ^ k \<le> Q"
    and hi: "Q < 2 ^ 53 * 2 ^ Suc k"
    and A: "A = m' * 2 ^ Suc k"
    and near: "2 * \<bar>A - Q\<bar> \<le> 2 ^ Suc k"
    and bound: "6 * m * 2 ^ 54 \<le> 2 ^ 52 * 2 ^ N"
    and T: "(T - 1) * 2 ^ N < 6 * m * 2 ^ 54" "6 * m * 2 ^ 54 \<le> T * 2 ^ N"
  shows "(T - 1) * 2 ^ N < A \<and> A \<le> T * 2 ^ N"
proof -
  define h :: int where "h = 2 ^ k"
  define P :: int where "P = 2 ^ N"
  define B :: int where "B = 6 * m * 2 ^ 54"
  have hpos: "0 < h" by (simp add: h_def)
  have c13: "1 \<le> c" "c \<le> 3" by (simp_all add: c)
  have Q': "Q = B + 6 * m + c" by (simp add: Q B_def)
  have near': "\<bar>A - Q\<bar> \<le> h" using near by (simp add: h_def)
  have lo': "9007199254740992 * h \<le> Q" using lo by (simp add: h_def)
  have hi': "Q < 18014398509481984 * h" using hi by (simp add: h_def)
  have bound': "B \<le> 4503599627370496 * P" using bound by (simp add: B_def P_def)
  have T': "(T - 1) * P < B" "B \<le> T * P" using T by (simp_all add: B_def P_def)
  have Bm: "B = 18014398509481984 * (6 * m)" by (simp add: B_def)
  have "Q < 9007199254740992 * P"
    using bound' m c13 unfolding Q' Bm by linarith
  with lo' have "h < P" by linarith
  then have kN: "k < N"
    unfolding h_def P_def by (simp add: power_strict_increasing_iff)
  then obtain j where N: "N = Suc k + j"
    by (metis less_iff_Suc_add add_Suc)
  have P: "P = 2 ^ j * (2 * h)"
    by (simp add: P_def h_def N power_add)
  have small: "6 * m + c < h"
  proof (cases "m < 6004799503160661")
    case True
    then have c1: "c = 1" by (simp add: c)
    from hi' m have "6 * m < h" unfolding Q' Bm c1 by linarith
    with m have "1 < h" by linarith
    then obtain i where "k = Suc i" by (cases k) (simp_all add: h_def)
    then have "h = 2 * 2 ^ i" by (simp add: h_def)
    with \<open>6 * m < h\<close> show ?thesis unfolding c1 by presburger
  next
    case False
    then have "2 \<le> c" by (simp add: c)
    with False have "649037107316853453566312041152512 \<le> Q" unfolding Q' Bm
      by linarith
    with hi' have "2 ^ 55 < h" by simp
    then have "55 < k" unfolding h_def
      by (metis power_strict_increasing_iff one_less_numeral_iff semiring_norm(76))
    then have "56 \<le> k" by simp
    then have "(2 :: int) ^ 56 \<le> 2 ^ k" by (intro power_increasing) simp_all
    with m c13 show ?thesis unfolding h_def by simp
  qed
  have upper: "A \<le> T * P"
  proof -
    from near' have "A \<le> Q + h" by linarith
    with small T'(2) have "A < T * P + 2 * h" unfolding Q' by linarith
    then have "m' * (2 * h) < (T * 2 ^ j + 1) * (2 * h)"
      by (simp add: A P h_def algebra_simps)
    with hpos have "m' < T * 2 ^ j + 1"
      by (simp add: mult_less_cancel_right)
    then have "m' \<le> T * 2 ^ j" by simp
    with hpos have "m' * (2 * h) \<le> T * 2 ^ j * (2 * h)"
      by (intro mult_right_mono) simp_all
    then show ?thesis by (simp add: A P h_def algebra_simps)
  qed
  define D where "D = B - (T - 1) * P"
  have Dpos: "0 < D" using T'(1) by (simp add: D_def)
  have lowerQ: "A \<ge> Q - h" using near' by linarith
  have lower: "(T - 1) * P < A"
  proof (cases "k \<le> 55")
    case True
    have B55: "B = (3 * m) * 2 ^ 55" by (simp add: B_def)
    from True have "h dvd (2 :: int) ^ 55"
      unfolding h_def by (rule le_imp_power_dvd)
    then have "h dvd (3 * m) * 2 ^ 55" by (rule dvd_mult)
    then have "h dvd B" by (simp only: B55)
    moreover have "h dvd P" unfolding P by (rule dvd_mult) (rule dvd_triv_right)
    then have "h dvd (T - 1) * P" by (rule dvd_mult)
    ultimately have "h dvd D" unfolding D_def by (rule dvd_diff)
    from this Dpos have "h \<le> D" by (rule zdvd_imp_le)
    with lowerQ m c13 show ?thesis unfolding Q' D_def by linarith
  next
    case False
    then have "56 \<le> k" by simp
    then have h56: "(2 :: int) ^ 56 \<le> h" unfolding h_def
      by (intro power_increasing) simp_all
    have "Q < 1298074214633706907132624082305024" using m c13 unfolding Q' Bm by simp
    with lo' have "h < 2 ^ 57" by simp
    then have "k < 57" unfolding h_def
      by (metis power_strict_increasing_iff one_less_numeral_iff semiring_norm(76))
    with \<open>56 \<le> k\<close> have k: "k = 56" by simp
    then have h: "h = 2 ^ 56" by (simp add: h_def)
    have ms: "6004799503160661 \<le> m"
    proof (rule ccontr)
      assume "\<not> 6004799503160661 \<le> m"
      then have "m < 6004799503160661" by simp
      then have "Q < 649037107316853453566312041152512" unfolding Q' Bm by (simp add: c)
      with lo' show False unfolding h by simp
    qed
    have "2 ^ 56 < P"
      using bound' ms unfolding Bm by simp
    then have "56 < N" unfolding P_def
      by (metis power_strict_increasing_iff one_less_numeral_iff semiring_norm(76))
    then have "57 \<le> N" by simp
    then have P57: "(2 :: int) ^ 57 dvd P" unfolding P_def by (rule le_imp_power_dvd)
    show ?thesis
    proof (cases "m = 6004799503160661")
      case True
      then have Qv: "Q = 2 ^ 109" by (simp add: Q c)
      have "(2 :: int) ^ 57 dvd 2 ^ 109" by (rule le_imp_power_dvd) simp
      moreover from P57 have "(2 :: int) ^ 57 dvd (T - 1) * P" by (rule dvd_mult)
      ultimately have "(2 :: int) ^ 57 dvd Q - (T - 1) * P"
        unfolding Qv by (rule dvd_diff)
      moreover have "0 < Q - (T - 1) * P"
        using Dpos m c13 unfolding Q' D_def by linarith
      ultimately have "2 ^ 57 \<le> Q - (T - 1) * P" by (rule zdvd_imp_le)
      with lowerQ show ?thesis unfolding h by simp
    next
      case False
      with ms have gt: "6004799503160662 \<le> m" by simp
      have B55: "B = (3 * m) * 2 ^ 55" by (simp add: B_def)
      have "(2 :: int) ^ 55 dvd (3 * m) * 2 ^ 55" by (rule dvd_triv_right)
      then have "(2 :: int) ^ 55 dvd B" by (simp only: B55)
      moreover have "(2 :: int) ^ 55 dvd 2 ^ 57" by (rule le_imp_power_dvd) simp
      then have "(2 :: int) ^ 55 dvd P" using P57 by (rule dvd_trans)
      then have "(2 :: int) ^ 55 dvd (T - 1) * P" by (rule dvd_mult)
      ultimately have "(2 :: int) ^ 55 dvd D" unfolding D_def by (rule dvd_diff)
      from this Dpos have "2 ^ 55 \<le> D" by (rule zdvd_imp_le)
      with lowerQ gt c13 show ?thesis unfolding Q' D_def h by simp
    qed
  qed
  from lower upper show ?thesis by (simp add: P_def)
qed


lemma fceil_ceiling: "fceil a = \<lceil>double_value a\<rceil>"
proof (cases a)
  case (Double m e)
  show ?thesis
  proof (cases "0 \<le> e")
    case True
    have "double_value a = real_of_int (m * 2 ^ nat e)"
      using True by (simp add: Double)
    then show ?thesis using True by (simp add: Double del: of_int_mult of_int_power)
  next
    case False
    have "\<lceil>real_of_int m / real_of_int (2 ^ nat (- e))\<rceil> = - (- m div 2 ^ nat (- e))"
      by (rule ceiling_divide_eq_div)
    then show ?thesis using False by (simp add: Double)
  qed
qed

lemma double_value_scaled:
  assumes "e = int a - int N"
  shows "double_value (Double m e) = real_of_int (m * 2 ^ a) / 2 ^ N"
proof -
  have "2 powr real_of_int e = 2 powr (real a - real N)"
    by (simp add: assms)
  also have "\<dots> = 2 powr real a / 2 powr real N"
    by (rule powr_diff)
  also have "\<dots> = 2 ^ a / 2 ^ N"
    by (simp add: powr_realpow)
  finally have p: "2 powr real_of_int e = 2 ^ a / 2 ^ N" .
  show ?thesis
    unfolding double_value_powr p by simp
qed

lemma hourly_quotient_ceiling:
  assumes m: "0 < m" "m < 2 ^ 53"
    and bound: "double_value (Double m e) * 24 \<le> 2 ^ 52"
  shows "fceil (fdiv (Double m e) (Double 6004799503160661 (- 57))) =
     \<lceil>double_value (Double m e) * 24\<rceil>"
proof -
  define c :: int where
    "c = (if m < 6004799503160661 then 1 else if m = 6004799503160661 then 2 else 3)"
  define Q where "Q = 6 * m * (2 ^ 54 + 1) + c"
  define sh where "sh = excess_bits Q"
  define m' where "m' = shift_round Q sh"
  have c13: "1 \<le> c" "c \<le> 3" by (simp_all add: c_def)
  have Qpos: "2 ^ 53 \<le> Q" using m c13 by (simp add: Q_def)
  have sq: "sticky_quotient (m * 2 ^ 108) 6004799503160661 = Q"
    unfolding Q_def c_def by (rule sticky_quotient_hour [OF m])
  have sg: "sgn m = 1" "\<bar>m\<bar> = m" using m by simp_all
  have absQ: "\<bar>Q\<bar> = Q" using Qpos by simp
  have "fdiv (Double m e) (Double 6004799503160661 (- 57)) =
      round53 (sticky_quotient (m * 2 ^ 108) 6004799503160661) (e - 52)"
    by (simp only: fdiv.simps sg) simp
  then have "fdiv (Double m e) (Double 6004799503160661 (- 57)) = round53 Q (e - 52)"
    by (simp only: sq)
  then have fd: "fdiv (Double m e) (Double 6004799503160661 (- 57)) =
      Double m' (e - 52 + int sh)"
    by (simp only: round53_def round_at_def sh_def m'_def absQ)
  have up: "Q < 2 ^ 53 * 2 ^ sh"
    unfolding sh_def by (rule excess_bits_upper)
  with Qpos have "sh \<noteq> 0" by (cases sh) simp_all
  then obtain k where sh: "sh = Suc k" by (cases sh) simp_all
  have lo: "2 ^ 53 * 2 ^ k \<le> Q"
    by (rule excess_bits_lower) (simp add: sh [symmetric] sh_def)
  have near: "2 * \<bar>m' * 2 ^ Suc k - Q\<bar> \<le> 2 ^ Suc k"
    unfolding m'_def sh [symmetric] by (rule shift_round_nearest)
  have e47: "e < 48"
  proof (rule ccontr)
    assume "\<not> e < 48"
    then have "48 \<le> e" by simp
    then have "(2 :: real) ^ 48 \<le> 2 ^ nat e"
      by (intro power_increasing) simp_all
    moreover have "1 * (2 :: real) ^ nat e \<le> real_of_int m * 2 ^ nat e"
      using m by (intro mult_right_mono) simp_all
    ultimately have "2 ^ 48 \<le> real_of_int m * 2 ^ nat e"
      by linarith
    moreover have "double_value (Double m e) = real_of_int m * 2 ^ nat e"
      using \<open>48 \<le> e\<close> by simp
    ultimately show False using bound by simp
  qed
  define N where "N = nat (52 - e)"
  have N: "int N = 52 - e" using e47 by (simp add: N_def)
  have vin: "double_value (Double m e) = real_of_int (m * 2 ^ 52) / 2 ^ N"
    by (rule double_value_scaled) (simp add: N)
  have V: "double_value (Double m e) * 24 = real_of_int (6 * m * 2 ^ 54) / 2 ^ N"
    unfolding vin by simp
  have vout: "double_value (Double m' (e - 52 + int sh)) =
      real_of_int (m' * 2 ^ Suc k) / 2 ^ N"
    by (rule double_value_scaled) (simp add: N sh)
  define T where "T = \<lceil>double_value (Double m e) * 24\<rceil>"
  have "real_of_int (6 * m * 2 ^ 54) / 2 ^ N \<le> 2 ^ 52"
    using bound unfolding V .
  then have "real_of_int (6 * m * 2 ^ 54) \<le> real_of_int (2 ^ 52 * 2 ^ N)"
    by (simp add: field_simps)
  then have b: "6 * m * 2 ^ 54 \<le> 2 ^ 52 * 2 ^ N"
    by (simp only: of_int_le_iff)
  have "real_of_int T - 1 < real_of_int (6 * m * 2 ^ 54) / 2 ^ N"
    unfolding T_def V [symmetric] by linarith
  then have "real_of_int ((T - 1) * 2 ^ N) < real_of_int (6 * m * 2 ^ 54)"
    by (simp add: field_simps)
  then have T1: "(T - 1) * 2 ^ N < 6 * m * 2 ^ 54"
    by (simp only: of_int_less_iff)
  have "real_of_int (6 * m * 2 ^ 54) / 2 ^ N \<le> real_of_int T"
    unfolding T_def V [symmetric] by linarith
  then have "real_of_int (6 * m * 2 ^ 54) \<le> real_of_int (T * 2 ^ N)"
    by (simp add: field_simps)
  then have T2: "6 * m * 2 ^ 54 \<le> T * 2 ^ N"
    by (simp only: of_int_le_iff)
  have up': "Q < 2 ^ 53 * 2 ^ Suc k" using up by (simp add: sh)
  have core: "(T - 1) * 2 ^ N < m' * 2 ^ Suc k \<and> m' * 2 ^ Suc k \<le> T * 2 ^ N"
    by (rule hour_count_core [OF m c_def Q_def lo up' refl near b T1 T2])
  then have "real_of_int ((T - 1) * 2 ^ N) < real_of_int (m' * 2 ^ Suc k)"
    "real_of_int (m' * 2 ^ Suc k) \<le> real_of_int (T * 2 ^ N)"
    by (simp_all only: of_int_less_iff of_int_le_iff)
  then have "real_of_int T - 1 < real_of_int (m' * 2 ^ Suc k) / 2 ^ N"
    "real_of_int (m' * 2 ^ Suc k) / 2 ^ N \<le> real_of_int T"
    by (simp_all add: field_simps)
  then have "\<lceil>real_of_int (m' * 2 ^ Suc k) / 2 ^ N\<rceil> = T"
    by (rule ceiling_unique)
  then show ?thesis
    unfolding fd fceil_ceiling vout T_def .
qed


lemma fsub_zero:
  "fsub (Double m e) (Double 0 0) = round53 (m * 2 ^ nat e) (min e 0)"
proof -
  have "nat (e - min e 0) = nat e" by (simp add: min_def)
  then show ?thesis by (simp add: align_add_def)
qed

lemma value_at_min:
  "double_value (Double (m * 2 ^ nat e) (min e 0)) = double_value (Double m e)"
  by (simp add: min_def)

lemma round53_zero: "round53 0 e = Double 0 e"
  by (simp add: round53_small)

lemma hourly_length_exact:
  assumes m: "0 \<le> m" "m < 2 ^ 53"
    and bound: "double_value (Double m e) * 24 \<le> 2 ^ 52"
  shows "rangeLength_double (Double 0 0) (Double m e) (Double 6004799503160661 (- 57)) =
     nat \<lceil>double_value (Double m e) * 24\<rceil>"
proof (cases "m = 0")
  case True
  have "fsub (Double 0 e) (Double 0 0) = Double 0 (min e 0)"
    unfolding fsub_zero by (simp add: round53_zero)
  moreover have "fdiv (Double 0 (min e 0)) (Double 6004799503160661 (- 57)) =
      Double 0 (min e 0 - 52)"
    by (simp add: round53_zero)
  ultimately show ?thesis
    unfolding rangeLength_double_def True by simp
next
  case False
  with m have pos: "0 < m" by simp
  define M where "M = m * 2 ^ nat e"
  have Mpos: "0 < M" using pos by (simp add: M_def)
  have val: "double_value (Double M (min e 0)) = double_value (Double m e)"
    unfolding M_def by (rule value_at_min)
  have M53: "M < 2 ^ 53"
  proof (cases "0 \<le> e")
    case True
    then have "double_value (Double m e) = real_of_int M"
      by (simp add: M_def)
    with bound have "real_of_int M * 24 \<le> real_of_int (2 ^ 52)" by simp
    then have "real_of_int (M * 24) \<le> real_of_int (2 ^ 52)" by simp
    then have "M * 24 \<le> 2 ^ 52" by (simp only: of_int_le_iff)
    then show ?thesis by simp
  next
    case False
    then show ?thesis using m by (simp add: M_def)
  qed
  have sub: "fsub (Double m e) (Double 0 0) = Double M (min e 0)"
    unfolding fsub_zero M_def [symmetric] using Mpos M53 by (simp add: round53_small)
  have "fceil (fdiv (Double M (min e 0)) (Double 6004799503160661 (- 57))) =
      \<lceil>double_value (Double M (min e 0)) * 24\<rceil>"
    using Mpos M53 bound unfolding val [symmetric] by (rule hourly_quotient_ceiling)
  then show ?thesis
    unfolding rangeLength_double_def sub val by (simp add: nat_max_zero)
qed


lemma round53_lower:
  assumes "0 < M"
  shows "\<exists>m' e'. round53 M E = Double m' e' \<and> 0 < m'
     \<and> double_value (Double M E) \<le> 2 * double_value (Double m' e')"
proof -
  define sh where "sh = excess_bits M"
  define m' where "m' = shift_round M sh"
  have absM: "\<bar>M\<bar> = M" using assms by simp
  have r: "round53 M E = Double m' (E + int sh)"
    by (simp only: round53_def round_at_def sh_def m'_def absM)
  have near: "2 * \<bar>m' * 2 ^ sh - M\<bar> \<le> 2 ^ sh"
    unfolding m'_def by (rule shift_round_nearest)
  have half: "M \<le> 2 * (m' * 2 ^ sh)"
  proof (cases sh)
    case 0
    with near have "2 * \<bar>m' - M\<bar> \<le> 1" by simp
    then have "m' = M" by presburger
    with assms show ?thesis by (simp add: 0)
  next
    case (Suc k)
    then have "2 ^ 53 * 2 ^ k \<le> M"
      unfolding sh_def by (rule excess_bits_lower)
    moreover have "(2 :: int) * 2 ^ k \<le> 2 ^ 53 * 2 ^ k"
      by (intro mult_right_mono) simp_all
    ultimately have "2 * 2 ^ k \<le> M"
      by linarith
    moreover from near have "\<bar>m' * 2 ^ sh - M\<bar> \<le> 2 ^ k"
      by (simp add: Suc)
    ultimately show ?thesis by linarith
  qed
  with assms have "0 < m' * 2 ^ sh" by linarith
  then have pos: "0 < m'" by (simp add: zero_less_mult_iff)
  have pw: "2 powr real_of_int (E + int sh) = 2 powr real_of_int E * 2 ^ sh"
    by (simp add: powr_add powr_realpow)
  have v: "double_value (Double m' (E + int sh)) =
      real_of_int (m' * 2 ^ sh) * 2 powr real_of_int E"
    unfolding double_value_powr pw by simp
  from half have "real_of_int M \<le> real_of_int (2 * (m' * 2 ^ sh))"
    by (simp only: of_int_le_iff)
  then have "real_of_int M * 2 powr real_of_int E \<le>
      real_of_int (2 * (m' * 2 ^ sh)) * 2 powr real_of_int E"
    by (rule mult_right_mono) simp
  then have "real_of_int M * 2 powr real_of_int E \<le>
      2 * (real_of_int (m' * 2 ^ sh) * 2 powr real_of_int E)"
    by simp
  then have "double_value (Double M E) \<le> 2 * double_value (Double m' (E + int sh))"
    by (simp only: v double_value_powr [of M E])
  with r pos show ?thesis by blast
qed

lemma round53_nonpos:
  assumes "M \<le> 0"
  shows "\<exists>m' e'. round53 M E = Double m' e' \<and> m' \<le> 0"
proof -
  define sh where "sh = excess_bits \<bar>M\<bar>"
  define p :: int where "p = 2 ^ sh"
  have p: "0 < p" by (simp add: p_def)
  have r: "round53 M E = Double (shift_round M sh) (E + int sh)"
    by (simp only: round53_def round_at_def sh_def)
  have q: "M div p \<le> 0"
    using assms p by (simp add: div_nonpos_pos_le0)
  have "shift_round M sh \<le> 0"
  proof (cases "M div p = 0")
    case True
    moreover have "p * (M div p) + M mod p = M"
      by (rule mult_div_mod_eq)
    ultimately have "M mod p = M"
      by simp
    moreover have "0 \<le> M mod p" using p by simp
    ultimately have "M = 0" using assms by simp
    then show ?thesis
      by (simp add: shift_round_def nearest_even_def)
  next
    case False
    with q have "M div p \<le> - 1" by simp
    then show ?thesis
      unfolding shift_round_def nearest_even_def p_def [symmetric] by simp
  qed
  with r show ?thesis by blast
qed

lemma sticky_quotient_lower:
  assumes "0 < m"
  shows "m * 2 ^ 56 \<le> sticky_quotient (m * 2 ^ 108) 6004799503160661"
proof -
  have "m * 2 ^ 108 div 2 ^ 53 \<le> m * 2 ^ 108 div 6004799503160661"
    using assms by (intro zdiv_mono2) simp_all
  moreover have "m * 2 ^ 108 div 2 ^ 53 = m * 2 ^ 55"
    by simp
  ultimately show ?thesis
    unfolding sticky_quotient_def by (simp split: if_splits)
qed

lemma hourly_length_huge:
  assumes m: "0 < m"
    and big: "2 ^ 52 < double_value (Double m e) * 24"
  shows "4294967295 <
     rangeLength_double (Double 0 0) (Double m e) (Double 6004799503160661 (- 57))"
proof -
  define M where "M = m * 2 ^ nat e"
  have Mpos: "0 < M" using m by (simp add: M_def)
  have val: "double_value (Double M (min e 0)) = double_value (Double m e)"
    unfolding M_def by (rule value_at_min)
  from round53_lower [OF Mpos, of "min e 0"] obtain m1 e1
    where r1: "round53 M (min e 0) = Double m1 e1" and m1: "0 < m1"
      and v1: "double_value (Double M (min e 0)) \<le> 2 * double_value (Double m1 e1)"
    by blast
  have sub: "fsub (Double m e) (Double 0 0) = Double m1 e1"
    unfolding fsub_zero M_def [symmetric] by (rule r1)
  define Q where "Q = sticky_quotient (m1 * 2 ^ 108) 6004799503160661"
  have Qlow: "m1 * 2 ^ 56 \<le> Q"
    unfolding Q_def by (rule sticky_quotient_lower [OF m1])
  from m1 have "0 < m1 * 2 ^ 56" by simp
  with Qlow have Qpos: "0 < Q" by linarith
  have sg: "sgn m1 = 1" "\<bar>m1\<bar> = m1" using m1 by simp_all
  have "fdiv (Double m1 e1) (Double 6004799503160661 (- 57)) =
      round53 (sticky_quotient (m1 * 2 ^ 108) 6004799503160661) (e1 - 52)"
    by (simp only: fdiv.simps sg) simp
  then have fd: "fdiv (Double m1 e1) (Double 6004799503160661 (- 57)) = round53 Q (e1 - 52)"
    by (simp only: Q_def)
  from round53_lower [OF Qpos, of "e1 - 52"] obtain m2 e2
    where r2: "round53 Q (e1 - 52) = Double m2 e2" and m2: "0 < m2"
      and v2: "double_value (Double Q (e1 - 52)) \<le> 2 * double_value (Double m2 e2)"
    by blast
  have "2 powr (real_of_int e1 - 52) = 2 powr real_of_int e1 / 2 powr 52"
    by (rule powr_diff)
  then have pw: "2 powr real_of_int (e1 - 52) = 2 powr real_of_int e1 / 2 ^ 52"
    by simp
  have vq: "double_value (Double Q (e1 - 52)) =
      real_of_int Q * 2 powr real_of_int e1 / 2 ^ 52"
    unfolding double_value_powr pw by simp
  from Qlow have "real_of_int (m1 * 2 ^ 56) \<le> real_of_int Q"
    by (simp only: of_int_le_iff)
  then have "real_of_int (m1 * 2 ^ 56) * 2 powr real_of_int e1 \<le>
      real_of_int Q * 2 powr real_of_int e1"
    by (rule mult_right_mono) simp
  then have "16 * (real_of_int m1 * 2 powr real_of_int e1) \<le>
      real_of_int Q * 2 powr real_of_int e1 / 2 ^ 52"
    by simp
  then have "16 * double_value (Double m1 e1) \<le> double_value (Double Q (e1 - 52))"
    by (simp only: vq double_value_powr [of m1 e1])
  with v1 v2 val have "4 * double_value (Double m e) \<le> double_value (Double m2 e2)"
    by linarith
  with big have "4294967295 < double_value (Double m2 e2)"
    by simp
  then have "4294967295 < \<lceil>double_value (Double m2 e2)\<rceil>"
    by (simp add: less_ceiling_iff)
  then have "4294967295 < fceil (Double m2 e2)"
    by (simp only: fceil_ceiling)
  then show ?thesis
    unfolding rangeLength_double_def sub by (simp add: fd r2 del: fdiv.simps fceil.simps)
qed

lemma hourly_length_negative:
  assumes "m < 0"
  shows "rangeLength_double (Double 0 0) (Double m e) (Double 6004799503160661 (- 57)) = 0"
proof -
  have "m * 2 ^ nat e \<le> 0"
    using assms by (simp add: mult_le_0_iff)
  from round53_nonpos [OF this, of "min e 0"] obtain m1 e1
    where r1: "round53 (m * 2 ^ nat e) (min e 0) = Double m1 e1" and m1: "m1 \<le> 0"
    by blast
  have sub: "fsub (Double m e) (Double 0 0) = Double m1 e1"
    unfolding fsub_zero by (rule r1)
  define Q where
    "Q = sgn m1 * sgn 6004799503160661
       * sticky_quotient (\<bar>m1\<bar> * 2 ^ 108) \<bar>6004799503160661\<bar>"
  have "0 \<le> sticky_quotient (\<bar>m1\<bar> * 2 ^ 108) \<bar>6004799503160661\<bar>"
    unfolding sticky_quotient_def by (simp add: pos_imp_zdiv_nonneg_iff)
  moreover have "sgn m1 \<le> 0" using m1 by (simp add: sgn_if)
  ultimately have "Q \<le> 0"
    unfolding Q_def by (simp add: mult_le_0_iff)
  from round53_nonpos [OF this, of "e1 - (- 57) - 109"] obtain m2 e2
    where r2: "round53 Q (e1 - (- 57) - 109) = Double m2 e2" and m2: "m2 \<le> 0"
    by blast
  have fd: "fdiv (Double m1 e1) (Double 6004799503160661 (- 57)) = Double m2 e2"
    by (simp only: fdiv.simps Q_def [symmetric] r2)
  have "double_value (Double m2 e2) \<le> 0"
    using m2 by (simp add: divide_le_0_iff mult_le_0_iff)
  then have "fceil (Double m2 e2) \<le> 0"
    unfolding fceil_ceiling by (simp add: ceiling_le_iff)
  then show ?thesis
    unfolding rangeLength_double_def sub by (simp add: fd del: fdiv.simps fceil.simps)
qed


lemma hourly_range_double:
  assumes m: "0 \<le> m" "m < 2 ^ 53"
  shows "lodash_range_double (Double 0 0) (Double m e) (Double 6004799503160661 (- 57)) =
     (if 4294967295 < \<lceil>double_value (Double m e) * 24\<rceil> then Inl RangeError
      else Inr (rangeFill_double (nat \<lceil>double_value (Double m e) * 24\<rceil>) (Double 0 0)
                 (Double 6004799503160661 (- 57))))"
proof (cases "double_value (Double m e) * 24 \<le> 2 ^ 52")
  case True
  have "(4294967295 < nat \<lceil>double_value (Double m e) * 24\<rceil>) =
      (4294967295 < \<lceil>double_value (Double m e) * 24\<rceil>)"
    by arith
  then show ?thesis
    unfolding lodash_range_double_def baseRange_double_def Array_length_error_def
      hourly_length_exact [OF m True]
    by simp
next
  case False
  then have big: "2 ^ 52 < double_value (Double m e) * 24" by simp
  have "m \<noteq> 0"
  proof
    assume "m = 0"
    then have "double_value (Double m e) = 0" by simp
    with big show False by simp
  qed
  with m have pos: "0 < m" by simp
  from big have "4294967295 < double_value (Double m e) * 24" by simp
  then have "4294967295 < \<lceil>double_value (Double m e) * 24\<rceil>"
    by (simp add: less_ceiling_iff)
  with hourly_length_huge [OF pos big] show ?thesis
    unfolding lodash_range_double_def baseRange_double_def Array_length_error_def
    by simp
qed

lemma negative_range_double:
  "m < 0 \<Longrightarrow>
   lodash_range_double (Double 0 0) (Double m e) (Double 6004799503160661 (- 57)) = Inr []"
  unfolding lodash_range_double_def baseRange_double_def Array_length_error_def
  by (simp add: hourly_length_negative)

lemma generateHourlyData_double_count:
  assumes m: "0 \<le> m" "m < 2 ^ 53"
  shows "map_sum id length (generateHourlyData_double tza (Double m e)) =
     (if 4294967295 < \<lceil>double_value (Double m e) * 24\<rceil> then Inl RangeError
      else Inr (nat \<lceil>double_value (Double m e) * 24\<rceil>))"
  unfolding generateHourlyData_length_eq one_hour_double hourly_range_double [OF m]
  by (simp add: length_rangeFill_double)

lemma generateHourlyData_count:
  "map_sum id length (generateHourlyData tza d) =
     (if 4294967295 < \<lceil>d * 24\<rceil> then Inl RangeError else Inr (nat \<lceil>d * 24\<rceil>))"
proof -
  have "(4294967295 < nat \<lceil>d * 24\<rceil>) = (4294967295 < \<lceil>d * 24\<rceil>)"
    by arith
  then show ?thesis
    unfolding generateHourlyData_eq by simp
qed

section \<open>The rounding error of the timestamps\<close>







section \<open>The generated sequence in double precision\<close>

lemma generateHourlyData_double_Inr:
  "lodash_range_double (Double 0 0) d (Double 6004799503160661 (- 57)) = Inr r \<Longrightarrow>
   generateHourlyData_double tza d =
     Inr (map (\<lambda>x. \<lparr>waterLevel_double = getWaterLevel_double x,
                      date_double = sampleDate tza x\<rparr>) r)"
  unfolding generateHourlyData_double_def one_hour_double by simp

lemma generateHourlyData_double_Inl:
  "lodash_range_double (Double 0 0) d (Double 6004799503160661 (- 57)) = Inl err \<Longrightarrow>
   generateHourlyData_double tza d = Inl err"
  unfolding generateHourlyData_double_def one_hour_double by simp



lemma hundred_days_step:
  "i < 2400 \<Longrightarrow>
   map_sum id (\<lambda>r. r ! i)
       (lodash_range_double (Double 0 0) (Double 100 0) (fdiv (Double 1 0) (Double 24 0))) =
     Inr (after_steps i (Double 0 0) (Double 6004799503160661 (- 57)))"
  unfolding one_hour_double hundred_days_range
  by (simp add: nth_rangeFill_double)

section \<open>The claims about the generator\<close>

text \<open>
  C1 (as amended). The water level of every sample is the sum of the three cycles at the
  sample's step value \<open>x\<close>: the yearly cycle with trend 0 and shift 50, the rainfall cycle
  with trend 0.5 and the default shift 0, and the daily usage cycle with trend -0.5 and
  the default shift 0, in exact arithmetic and on doubles alike. In exact arithmetic the
  two trends cancel, so the total equals the sum the specification writes, with trend 0
  and shifts 0.5 and -0.5.
\<close>

theorem waterLevel_components:
  "map_sum id (map waterLevel) (generateHourlyData tza d) =
     map_sum id
       (map (\<lambda>x. makeCycle x (Some (- 30)) (Some 365) (Some 0) (Some 50)
              + makeCycle x (Some (- 0.5)) (Some 10) (Some 0.5) (Some 0)
              + makeCycle x (Some (- 0.15)) (Some 1) (Some (- 0.5)) (Some 0)))
       (lodash_range 0 d (1 / 24))
   \<and> rainfall x = makeCycle x (Some (- 0.5)) (Some 10) (Some 0.5) (Some 0)
   \<and> dailyUsage x = makeCycle x (Some (- 0.15)) (Some 1) (Some (- 0.5)) (Some 0)
   \<and> getWaterLevel x =
       makeCycle x (Some (- 30)) (Some 365) (Some 0) (Some 50)
       + makeCycle x (Some (- 0.5)) (Some 10) (Some 0) (Some 0.5)
       + makeCycle x (Some (- 0.15)) (Some 1) (Some 0) (Some (- 0.5))
   \<and> map_sum id (map waterLevel_double) (generateHourlyData_double tza dd) =
       map_sum id
         (map (\<lambda>x. fadd
              (fadd
                 (makeCycle_double x (Some (Double (- 30) 0)) (Some (Double 365 0))
                    (Some (Double 0 0)) (Some (Double 50 0)))
                 (makeCycle_double x (Some (Double (- 1) (- 1))) (Some (Double 10 0))
                    (Some (Double 1 (- 1))) (Some (Double 0 0))))
              (makeCycle_double x (Some (Double (- 5404319552844595) (- 55)))
                 (Some (Double 1 0)) (Some (Double (- 1) (- 1))) (Some (Double 0 0)))))
         (lodash_range_double (Double 0 0) dd (fdiv (Double 1 0) (Double 24 0)))"
proof -
  have exact: "map_sum id (map waterLevel) (generateHourlyData tza d) =
     map_sum id
       (map (\<lambda>x. makeCycle x (Some (- 30)) (Some 365) (Some 0) (Some 50)
              + makeCycle x (Some (- 0.5)) (Some 10) (Some 0.5) (Some 0)
              + makeCycle x (Some (- 0.15)) (Some 1) (Some (- 0.5)) (Some 0)))
       (lodash_range 0 d (1 / 24))"
    unfolding generateHourlyData_def
    by (cases "lodash_range 0 d (1 / 24)")
      (simp_all add: comp_def getWaterLevel_def yearlySeasonalCycle_def rainfall_def
        dailyUsage_def makeCycle_def param_default_def)
  have level: "getWaterLevel_double x =
      fadd
        (fadd
           (makeCycle_double x (Some (Double (- 30) 0)) (Some (Double 365 0))
              (Some (Double 0 0)) (Some (Double 50 0)))
           (makeCycle_double x (Some (Double (- 1) (- 1))) (Some (Double 10 0))
              (Some (Double 1 (- 1))) (Some (Double 0 0))))
        (makeCycle_double x (Some (Double (- 5404319552844595) (- 55)))
           (Some (Double 1 0)) (Some (Double (- 1) (- 1))) (Some (Double 0 0)))" for x
    unfolding getWaterLevel_double_def makeCycle_double_def param_default_double_def
    by (simp only: option.case)
  have doubles: "map_sum id (map waterLevel_double) (generateHourlyData_double tza dd) =
       map_sum id
         (map (\<lambda>x. fadd
              (fadd
                 (makeCycle_double x (Some (Double (- 30) 0)) (Some (Double 365 0))
                    (Some (Double 0 0)) (Some (Double 50 0)))
                 (makeCycle_double x (Some (Double (- 1) (- 1))) (Some (Double 10 0))
                    (Some (Double 1 (- 1))) (Some (Double 0 0))))
              (makeCycle_double x (Some (Double (- 5404319552844595) (- 55)))
                 (Some (Double 1 0)) (Some (Double (- 1) (- 1))) (Some (Double 0 0)))))
         (lodash_range_double (Double 0 0) dd (fdiv (Double 1 0) (Double 24 0)))"
  proof -
    have "getWaterLevel_double =
        (\<lambda>x. fadd
              (fadd
                 (makeCycle_double x (Some (Double (- 30) 0)) (Some (Double 365 0))
                    (Some (Double 0 0)) (Some (Double 50 0)))
                 (makeCycle_double x (Some (Double (- 1) (- 1))) (Some (Double 10 0))
                    (Some (Double 1 (- 1))) (Some (Double 0 0))))
              (makeCycle_double x (Some (Double (- 5404319552844595) (- 55)))
                 (Some (Double 1 0)) (Some (Double (- 1) (- 1))) (Some (Double 0 0))))"
      by (rule ext) (rule level)
    then show ?thesis
      unfolding generateHourlyData_levels_eq by (rule arg_cong)
  qed
  have parts: "rainfall x = makeCycle x (Some (- 0.5)) (Some 10) (Some 0.5) (Some 0)"
    "dailyUsage x = makeCycle x (Some (- 0.15)) (Some 1) (Some (- 0.5)) (Some 0)"
    "getWaterLevel x =
       makeCycle x (Some (- 30)) (Some 365) (Some 0) (Some 50)
       + makeCycle x (Some (- 0.5)) (Some 10) (Some 0) (Some 0.5)
       + makeCycle x (Some (- 0.15)) (Some 1) (Some 0) (Some (- 0.5))"
    by (simp_all add: getWaterLevel_def yearlySeasonalCycle_def rainfall_def dailyUsage_def
        makeCycle_def param_default_def)
  from exact parts doubles show ?thesis by (intro conjI)
qed

text \<open>
  C1, the counterexample. At \<open>x = 0\<close> the rainfall summand of the code is -0.5 where a
  cycle with trend 0 and shift 0.5 gives 0, and the daily usage summand is -0.15 where a
  cycle with trend 0 and shift -0.5 gives -0.65.
\<close>

theorem waterLevel_components_counterexample:
  "rainfall 0 = - 0.5
   \<and> makeCycle 0 (Some (- 0.5)) (Some 10) (Some 0) (Some 0.5) = 0
   \<and> dailyUsage 0 = - 0.15
   \<and> makeCycle 0 (Some (- 0.15)) (Some 1) (Some 0) (Some (- 0.5)) = - 0.65
   \<and> rainfall 0 \<noteq> makeCycle 0 (Some (- 0.5)) (Some 10) (Some 0) (Some 0.5)
   \<and> dailyUsage 0 \<noteq> makeCycle 0 (Some (- 0.15)) (Some 1) (Some 0) (Some (- 0.5))"
  by (simp add: rainfall_def dailyUsage_def makeCycle_def param_default_def)

text \<open>
  C2. Seven days give exactly 168 samples, in exact arithmetic and on doubles. The first
  one is at step value 0, and its water level is 19.35: in exact arithmetic, and on
  doubles the double nearest to 19.35, which is \<open>5446540799351194 / 2 ^ 48\<close>.
\<close>

theorem generate_seven_days:
  "map_sum id length (generateHourlyData tza 7) = Inr 168
   \<and> map_sum id length (generateHourlyData_double tza (Double 7 0)) = Inr 168
   \<and> map_sum id hd (lodash_range 0 7 (1 / 24)) = Inr 0
   \<and> map_sum id (\<lambda>g. waterLevel (hd g)) (generateHourlyData tza 7) = Inr 19.35
   \<and> map_sum id hd
       (lodash_range_double (Double 0 0) (Double 7 0) (fdiv (Double 1 0) (Double 24 0))) =
       Inr (Double 0 0)
   \<and> map_sum id (\<lambda>g. waterLevel_double (hd g)) (generateHourlyData_double tza (Double 7 0)) =
       Inr (Double 5446540799351194 (- 48))
   \<and> \<bar>double_value (Double 5446540799351194 (- 48)) - 19.35\<bar> < 1 / 2 ^ 49"
proof -
  have a: "map_sum id length (generateHourlyData tza 7) = Inr 168"
    by (simp add: seven_days)
  have b: "map_sum id length (generateHourlyData_double tza (Double 7 0)) = Inr 168"
    by (simp add: generateHourlyData_double_Inr [OF seven_days_range] length_rangeFill_double)
  have c: "map_sum id hd (lodash_range 0 7 (1 / 24)) = Inr 0"
    by (simp add: hourly_range hd_map upt_conv_Cons)
  have d: "map_sum id (\<lambda>g. waterLevel (hd g)) (generateHourlyData tza 7) = Inr 19.35"
    by (simp add: seven_days hd_map upt_conv_Cons getWaterLevel_zero)
  have "hd (map (\<lambda>x. x) (rangeFill_double 168 (Double 0 0) (Double 6004799503160661 (- 57))))
      = Double 0 0"
    by (rule first_of_rangeFill_double) simp
  then have e: "map_sum id hd
       (lodash_range_double (Double 0 0) (Double 7 0) (fdiv (Double 1 0) (Double 24 0))) =
       Inr (Double 0 0)"
    unfolding one_hour_double seven_days_range by simp
  have "hd (map (\<lambda>x. \<lparr>waterLevel_double = getWaterLevel_double x,
                       date_double = sampleDate tza x\<rparr>)
         (rangeFill_double 168 (Double 0 0) (Double 6004799503160661 (- 57)))) =
      \<lparr>waterLevel_double = getWaterLevel_double (Double 0 0),
        date_double = sampleDate tza (Double 0 0)\<rparr>"
    by (rule first_of_rangeFill_double) simp
  then have f: "map_sum id (\<lambda>g. waterLevel_double (hd g))
        (generateHourlyData_double tza (Double 7 0)) =
       Inr (Double 5446540799351194 (- 48))"
    by (simp add: generateHourlyData_double_Inr [OF seven_days_range]
        getWaterLevel_double_zero)
  from a b c d e f nearest_to_19_35 show ?thesis by (intro conjI)
qed

text \<open>
  C3, the counterexample. Two durations for which the number of samples is not the one
  claimed. For 200,000,000 days the claimed number is 4,800,000,000, which is above the
  greatest length of an array: the call throws \<open>RangeError\<close> and returns no sequence, in
  exact arithmetic and on doubles. For five hours, the double \<open>5 / 24\<close>, the program's
  product \<open>durationDays * 24\<close> is the integer 5, and the call returns six samples.
\<close>

theorem generate_count_counterexample:
  "generateHourlyData 0 200000000 = Inl RangeError
   \<and> generateHourlyData_double 0 (Double 200000000 0) = Inl RangeError
   \<and> \<lceil>200000000 * (24 :: real)\<rceil> = 4800000000
   \<and> fdiv (Double 5 0) (Double 24 0) = Double 7505999378950827 (- 55)
   \<and> double_value (fmul (Double 7505999378950827 (- 55)) (Double 24 0)) = 5
   \<and> map_sum id length (generateHourlyData_double 0 (Double 7505999378950827 (- 55))) = Inr 6"
proof -
  have a: "generateHourlyData 0 200000000 = Inl RangeError"
    by (simp add: generateHourlyData_eq)
  have b: "generateHourlyData_double 0 (Double 200000000 0) = Inl RangeError"
    by (rule generateHourlyData_double_Inl [OF huge_duration_range])
  have c: "\<lceil>200000000 * (24 :: real)\<rceil> = 4800000000"
    by simp
  have d: "double_value (fmul (Double 7505999378950827 (- 55)) (Double 24 0)) = 5"
    by (simp only: five_hours_double)
  have e: "map_sum id length (generateHourlyData_double 0 (Double 7505999378950827 (- 55))) =
      Inr 6"
    by (simp add: generateHourlyData_double_Inr [OF five_hours_range] length_rangeFill_double)
  from a b c five_hours_double(1) d e show ?thesis by (intro conjI)
qed

text \<open>
  C3 (as amended). For a duration \<open>d \<ge> 0\<close>, a double \<open>m * 2 ^ e\<close> with \<open>0 \<le> m < 2 ^ 53\<close>,
  the number of samples is the ceiling of \<open>d * 24\<close>, the product taken exactly on the value
  of \<open>d\<close> and not rounded, as long as that ceiling is at most \<open>2 ^ 32 - 1\<close>; it is \<open>d * 24\<close>
  itself when that is an integer. For a greater ceiling the call throws \<open>RangeError\<close>. No
  duration gives no sample. The count, or the error, is the one of the generator in
  exact arithmetic at the value of \<open>d\<close>. (Where the quotient of a huge duration
  overflows in JavaScript, the length is \<^verbatim>\<open>Infinity\<close>, for which \<^verbatim>\<open>Array\<close> throws
  \<open>RangeError\<close> as well.)
\<close>

theorem generate_count:
  "0 \<le> m \<Longrightarrow> m < 2 ^ 53 \<Longrightarrow>
     (\<lceil>double_value (Double m e) * 24\<rceil> \<le> 4294967295 \<longrightarrow>
        map_sum id length (generateHourlyData_double tza (Double m e)) =
          Inr (nat \<lceil>double_value (Double m e) * 24\<rceil>))
     \<and> (4294967295 < \<lceil>double_value (Double m e) * 24\<rceil> \<longrightarrow>
          generateHourlyData_double tza (Double m e) = Inl RangeError)
     \<and> (double_value (Double m e) * 24 \<in> \<int> \<longrightarrow>
          real_of_int \<lceil>double_value (Double m e) * 24\<rceil> = double_value (Double m e) * 24)
     \<and> generateHourlyData_double tza (Double 0 0) = Inr []
     \<and> map_sum id length (generateHourlyData_double tza (Double m e)) =
         map_sum id length (generateHourlyData tza (double_value (Double m e)))"
proof -
  assume m: "0 \<le> m" "m < 2 ^ 53"
  note count = generateHourlyData_double_count [OF m, of tza e]
  have a: "map_sum id length (generateHourlyData_double tza (Double m e)) =
      Inr (nat \<lceil>double_value (Double m e) * 24\<rceil>)"
    if "\<lceil>double_value (Double m e) * 24\<rceil> \<le> 4294967295"
    using that unfolding count by simp
  have b: "generateHourlyData_double tza (Double m e) = Inl RangeError"
    if "4294967295 < \<lceil>double_value (Double m e) * 24\<rceil>"
    using that
    by (simp add: generateHourlyData_double_Inl hourly_range_double [OF m])
  have c: "real_of_int \<lceil>double_value (Double m e) * 24\<rceil> = double_value (Double m e) * 24"
    if "double_value (Double m e) * 24 \<in> \<int>"
    using that by (auto elim: Ints_cases)
  have "lodash_range_double (Double 0 0) (Double 0 0) (Double 6004799503160661 (- 57)) = Inr []"
    using hourly_range_double [of 0 0] by simp
  then have d: "generateHourlyData_double tza (Double 0 0) = Inr []"
    by (simp add: generateHourlyData_double_Inr)
  have f: "map_sum id length (generateHourlyData_double tza (Double m e)) =
      map_sum id length (generateHourlyData tza (double_value (Double m e)))"
    unfolding count generateHourlyData_count ..
  from a b c d f show ?thesis by (intro conjI impI)
qed

theorem generate_count_witness:
  "(0 :: int) \<le> 7 \<and> (7 :: int) < 2 ^ 53
   \<and> \<lceil>double_value (Double 7 0) * 24\<rceil> \<le> 4294967295
   \<and> double_value (Double 7 0) * 24 \<in> \<int>
   \<and> map_sum id length (generateHourlyData_double 0 (Double 7 0)) = Inr 168
   \<and> (0 :: int) \<le> 7505999378950827 \<and> (7505999378950827 :: int) < 2 ^ 53
   \<and> \<lceil>double_value (Double 7505999378950827 (- 55)) * 24\<rceil> \<le> 4294967295
   \<and> map_sum id length (generateHourlyData_double 0 (Double 7505999378950827 (- 55))) = Inr 6
   \<and> (0 :: int) \<le> 200000000 \<and> (200000000 :: int) < 2 ^ 53
   \<and> 4294967295 < \<lceil>double_value (Double 200000000 0) * 24\<rceil>
   \<and> generateHourlyData_double 0 (Double 200000000 0) = Inl RangeError"
proof -
  have whole: "double_value (Double 7 0) * 24 \<in> \<int>" by simp
  from generate_count [of 7 0 0]
  have a: "map_sum id length (generateHourlyData_double 0 (Double 7 0)) = Inr 168" by simp
  have ceil: "\<lceil>double_value (Double 7505999378950827 (- 55)) * 24\<rceil> = 6"
    by (simp add: ceiling_eq_iff)
  from generate_count [of 7505999378950827 "- 55" 0]
  have "\<lceil>double_value (Double 7505999378950827 (- 55)) * 24\<rceil> \<le> 4294967295 \<longrightarrow>
      map_sum id length (generateHourlyData_double 0 (Double 7505999378950827 (- 55))) =
        Inr (nat \<lceil>double_value (Double 7505999378950827 (- 55)) * 24\<rceil>)"
    by simp
  then have b: "map_sum id length
      (generateHourlyData_double 0 (Double 7505999378950827 (- 55))) = Inr 6"
    unfolding ceil by simp
  from generate_count [of 200000000 0 0]
  have c: "generateHourlyData_double 0 (Double 200000000 0) = Inl RangeError" by simp
  from a b c whole ceil show ?thesis by simp
qed

text \<open>
  C4 (as amended). For a negative duration the call raises no error: it returns the
  empty sequence, so no sample is produced. This holds in exact arithmetic and for every
  negative double.
\<close>

theorem generate_negative:
  "d < 0 \<Longrightarrow>
     generateHourlyData tza d = Inr []
     \<and> (double_value dd < 0 \<longrightarrow> generateHourlyData_double tza dd = Inr [])"
proof -
  assume "d < 0"
  then have "\<lceil>d * 24\<rceil> \<le> 0"
    by (simp add: ceiling_le_iff)
  then have a: "generateHourlyData tza d = Inr []"
    by (simp add: generateHourlyData_eq)
  have b: "generateHourlyData_double tza dd = Inr []" if neg: "double_value dd < 0"
  proof (cases dd)
    case (Double m e)
    have "m < 0"
    proof (rule ccontr)
      assume "\<not> m < 0"
      then have "0 \<le> double_value (Double m e)" by simp
      with neg show False by (simp only: Double)
    qed
    then show ?thesis
      unfolding Double
      by (simp add: generateHourlyData_double_Inr [OF negative_range_double])
  qed
  from a b show ?thesis by simp
qed

theorem generate_negative_witness:
  "(- 1 :: real) < 0 \<and> generateHourlyData 0 (- 1) = Inr []
   \<and> double_value (Double (- 1) 0) < 0 \<and> generateHourlyData_double 0 (Double (- 1) 0) = Inr []"
  using generate_negative [of "- 1" 0 "Double (- 1) 0"] by simp

text \<open>
  C4, the counterexample. The call with -1 day returns the empty sequence, in exact
  arithmetic and on doubles; it does not fail with \<open>InvalidArgument\<close>.
\<close>

theorem generate_negative_counterexample:
  "generateHourlyData 0 (- 1) = Inr []
   \<and> generateHourlyData 0 (- 1) \<noteq> Inl InvalidArgument
   \<and> generateHourlyData_double 0 (Double (- 1) 0) = Inr []
   \<and> generateHourlyData_double 0 (Double (- 1) 0) \<noteq> Inl InvalidArgument"
  by (simp add: generateHourlyData_eq generateHourlyData_double_Inr [OF negative_duration_range])




text \<open>
  C6, evaluated on doubles. The generator does not keep the spacing of exactly
  3,600,000 ms: of the 2400 samples of 100 days (in a zone at UTC), number 1518 is at
  1,583,301,600,000 ms and number 1519 at 1,583,305,199,999 ms, 3,599,999 ms later. The
  step values come from adding the double nearest to 1/24 again and again; for sample
  1519 the sum of the milliseconds falls just short of a whole number, and the \<^verbatim>\<open>Date\<close>
  constructor truncates it.
\<close>

theorem hourly_spacing_drift:
  "map_sum id length (generateHourlyData_dates 0 (Double 100 0)) = Inr 2400
   \<and> map_sum id (\<lambda>ds. ds ! 1518) (generateHourlyData_dates 0 (Double 100 0)) =
       Inr (Some 1583301600000)
   \<and> map_sum id (\<lambda>ds. ds ! 1519) (generateHourlyData_dates 0 (Double 100 0)) =
       Inr (Some 1583305199999)
   \<and> (1583305199999 :: int) - 1583301600000 = 3599999
   \<and> map_sum id (\<lambda>r. r ! 1519)
       (lodash_range_double (Double 0 0) (Double 100 0) (fdiv (Double 1 0) (Double 24 0)))
       = Inr (Double 8907510200489102 (- 47))
   \<and> sampleTime 0 (Double 8907510200489102 (- 47)) = Double 6485218099199999 (- 12)
   \<and> double_value (Double 6485218099199999 (- 12)) = 1583305200000 - 1 / 4096"
proof -
  have gen: "generateHourlyData_dates 0 (Double 100 0) =
      Inr (map (sampleDate 0)
        (rangeFill_double 2400 (Double 0 0) (Double 6004799503160661 (- 57))))"
    unfolding generateHourlyData_dates_eq one_hour_double hundred_days_range by simp
  have len: "map_sum id length (generateHourlyData_dates 0 (Double 100 0)) = Inr 2400"
    by (simp add: gen length_rangeFill_double)
  have a: "map_sum id (\<lambda>ds. ds ! 1518) (generateHourlyData_dates 0 (Double 100 0)) =
       Inr (Some 1583301600000)"
    by (simp add: gen length_rangeFill_double nth_rangeFill_double step_value_1518
        sampleDate_1518)
  have b: "map_sum id (\<lambda>ds. ds ! 1519) (generateHourlyData_dates 0 (Double 100 0)) =
       Inr (Some 1583305199999)"
    by (simp add: gen length_rangeFill_double nth_rangeFill_double step_value_1519
        sampleDate_1519)
  have c: "map_sum id (\<lambda>r. r ! 1519)
       (lodash_range_double (Double 0 0) (Double 100 0) (fdiv (Double 1 0) (Double 24 0)))
       = Inr (Double 8907510200489102 (- 47))"
    using hundred_days_step [of 1519] by (simp add: step_value_1519)
  have d: "(1583305199999 :: int) - 1583301600000 = 3599999" by simp
  from len a b d c sampleTime_1519 sampleTime_1519_value show ?thesis by (intro conjI)
qed




text \<open>
  C8, the counterexample, on doubles. A cycle of amplitude 1, period \<open>2 ^ 100\<close> and shift
  -0.5 at \<open>x = 10\<close>: the argument of the cosine is below \<open>2 ^ - 96\<close>, so the cosine is the
  double 1. With the trend 0.01, the double \<open>5764607523034235 / 2 ^ 59\<close>, the cycle is
  0.6000000000000001; without trend it is 0.5, and adding \<open>10 * 0.01\<close> to that gives 0.6,
  the double next below.
\<close>

theorem makeCycle_formula_counterexample:
  "makeCycle_double (Double 10 0) (Some (Double 1 0)) (Some (Double 1 100))
       (Some (Double 5764607523034235 (- 59))) (Some (Double (- 1) (- 1))) =
     Double 2702159776422298 (- 52)
   \<and> makeCycle_double (Double 10 0) (Some (Double 1 0)) (Some (Double 1 100))
       (Some (Double 0 0)) (Some (Double (- 1) (- 1))) =
     Double 2251799813685248 (- 52)
   \<and> fadd (Double 2251799813685248 (- 52))
       (fmul (Double 10 0) (Double 5764607523034235 (- 59))) =
     Double 5404319552844595 (- 53)
   \<and> double_value (Double 5404319552844595 (- 53)) <
       double_value (Double 2702159776422298 (- 52))
   \<and> makeCycle_double (Double 10 0) (Some (Double 1 0)) (Some (Double 1 100))
       (Some (Double 5764607523034235 (- 59))) (Some (Double (- 1) (- 1))) \<noteq>
     fadd
       (makeCycle_double (Double 10 0) (Some (Double 1 0)) (Some (Double 1 100))
          (Some (Double 0 0)) (Some (Double (- 1) (- 1))))
       (fmul (Double 10 0) (Double 5764607523034235 (- 59)))"
proof -
  have a: "fadd (Double 2251799813685248 (- 52))
       (fmul (Double 10 0) (Double 5764607523034235 (- 59))) =
     Double 5404319552844595 (- 53)"
    by (simp only: ten_times_trend)
  have b: "double_value (Double 5404319552844595 (- 53)) <
       double_value (Double 2702159776422298 (- 52))"
    by simp
  from a b cycle_with_trend cycle_without_trend show ?thesis by simp
qed

text \<open>
  C8 (as amended). For a nonzero period the cycle is
  \<open>amplitude * cos (x * (2 * pi / period)) + trend * x + shift\<close>, which the program
  evaluates on doubles in this order; an omitted amplitude or period is 1, an omitted
  trend or shift is 0. In exact arithmetic a trend \<open>T\<close> adds exactly \<open>10 * T\<close> at \<open>x = 10\<close>
  to the result without trend; on doubles the trend enters as the rounded product
  \<open>T * x\<close>, added before the shift, and the two results can differ in the last bit.
\<close>

theorem makeCycle_formula:
  "period \<noteq> 0 \<Longrightarrow>
     makeCycle x (Some amplitude) (Some period) (Some trend) (Some yShift) =
       amplitude * cos (x * (2 * pi / period)) + trend * x + yShift
     \<and> makeCycle x None p t s = makeCycle x (Some 1) p t s
     \<and> makeCycle x a None t s = makeCycle x a (Some 1) t s
     \<and> makeCycle x a p None s = makeCycle x a p (Some 0) s
     \<and> makeCycle x a p t None = makeCycle x a p t (Some 0)
     \<and> makeCycle 10 (Some amplitude) (Some period) (Some T) (Some yShift) =
         makeCycle 10 (Some amplitude) (Some period) (Some 0) (Some yShift) + 10 * T
     \<and> makeCycle_double xd (Some ad) (Some pd) (Some td) (Some sd) =
         fadd
           (fadd (fmul ad (Math_cos (fmul xd (fdiv (fmul (Double 2 0) Math_PI) pd))))
              (fmul td xd))
           sd
     \<and> makeCycle_double xd None pd' td' sd' =
         makeCycle_double xd (Some (Double 1 0)) pd' td' sd'
     \<and> makeCycle_double xd ad' None td' sd' =
         makeCycle_double xd ad' (Some (Double 1 0)) td' sd'
     \<and> makeCycle_double xd ad' pd' None sd' =
         makeCycle_double xd ad' pd' (Some (Double 0 0)) sd'
     \<and> makeCycle_double xd ad' pd' td' None =
         makeCycle_double xd ad' pd' td' (Some (Double 0 0))"
  by (simp add: makeCycle_def param_default_def makeCycle_double_def
      param_default_double_def)

theorem makeCycle_formula_witness:
  "(365 :: real) \<noteq> 0
   \<and> makeCycle 0 (Some (- 30)) (Some 365) (Some 0) (Some 50) = 20
   \<and> makeCycle 10 (Some 2) (Some 365) (Some 3) (Some 5) =
       makeCycle 10 (Some 2) (Some 365) (Some 0) (Some 5) + 30"
proof -
  have nz: "(365 :: real) \<noteq> 0" by simp
  from makeCycle_formula [where period = 365 and x = 0 and amplitude = "- 30" and trend = 0
      and yShift = 50] nz
  have "makeCycle 0 (Some (- 30)) (Some 365) (Some 0) (Some 50) = 20" by simp
  moreover from makeCycle_formula [where period = 365 and amplitude = 2 and T = 3
      and yShift = 5] nz
  have "makeCycle 10 (Some 2) (Some 365) (Some 3) (Some 5) =
       makeCycle 10 (Some 2) (Some 365) (Some 0) (Some 5) + 30" by simp
  ultimately show ?thesis by simp
qed

text \<open>
  C10. In exact arithmetic every sample's water level lies in the closed interval from
  19.35 to 80.65: the trend terms \<open>0.5 * x\<close> and \<open>- 0.5 * x\<close> cancel, which leaves 50 minus
  three cosines of amplitudes 30, 0.5 and 0.15.
\<close>

theorem waterLevel_range:
  "0 \<le> d \<Longrightarrow>
     (\<forall>g. generateHourlyData tza d = Inr g \<longrightarrow>
        (\<forall>m \<in> set g. 19.35 \<le> waterLevel m \<and> waterLevel m \<le> 80.65))
     \<and> getWaterLevel x =
         50 - 30 * cos (x * (2 * pi / 365)) - 0.5 * cos (x * (2 * pi / 10))
            - 0.15 * cos (x * (2 * pi / 1))
     \<and> (30 + 0.5 + 0.15 :: real) = 30.65"
proof -
  have "19.35 \<le> waterLevel m \<and> waterLevel m \<le> 80.65"
    if gen: "generateHourlyData tza d = Inr g" and mem: "m \<in> set g" for g m
  proof -
    note g = generateHourlyData_Inr [OF gen]
    from mem obtain i where "m = \<lparr>waterLevel = getWaterLevel (real i / 24),
        date = real i * 3600000 + startTime tza\<rparr>"
      by (auto simp: g)
    then show ?thesis
      using getWaterLevel_bounds [of "real i / 24"] by simp
  qed
  then show ?thesis
    using getWaterLevel_closed_form [of x] by simp
qed

theorem waterLevel_range_witness:
  "(0 :: real) \<le> 7
   \<and> (\<exists>g. generateHourlyData 0 7 = Inr g \<and> hd g \<in> set g
        \<and> 19.35 \<le> waterLevel (hd g) \<and> waterLevel (hd g) \<le> 80.65)"
proof -
  obtain g where g: "generateHourlyData 0 7 = Inr g" and ne: "g \<noteq> []"
    by (simp add: seven_days)
  then have mem: "hd g \<in> set g" by simp
  from waterLevel_range [where d = 7 and tza = 0] g mem
  have "19.35 \<le> waterLevel (hd g) \<and> waterLevel (hd g) \<le> 80.65" by simp
  with g mem show ?thesis by auto
qed

section \<open>The claim about the table service wrapper\<close>

text \<open>
  C9. For every table name and options, \<open>deleteTableIfExists\<close> of the wrapper applies
  the service's \<open>createTable\<close>, as the wrapper's own \<open>createTable\<close> does, and never the
  service's \<open>deleteTableIfExists\<close>: replacing that method changes nothing. On the
  in-memory service the call creates the table \<open>test\<close> in an empty account and resolves
  with a table result, no boolean; in an account that has the table it rejects and the
  table stays.
\<close>

theorem deleteTableIfExists_creates:
  "deleteTableIfExists svc table options = promiseResult (svc_createTable svc table options)
   \<and> deleteTableIfExists svc table options = createTable svc table options
   \<and> deleteTableIfExists (svc\<lparr>svc_deleteTableIfExists := del\<rparr>) table options =
       deleteTableIfExists svc table options
   \<and> deleteTableIfExists memoryService ''test'' None [] =
       (Inr \<lparr>result = TableResult ''test'', response = 204\<rparr>, [''test''])
   \<and> deleteTableIfExists memoryService ''test'' None [''test''] =
       (Inl TableAlreadyExists, [''test''])
   \<and> promiseResult (svc_deleteTableIfExists memoryService ''test'' None) [''test''] =
       (Inr \<lparr>result = Boolean True, response = 204\<rparr>, [])"
  by (simp add: deleteTableIfExists_def createTable_def promiseResult_def memoryService_def)

end
